theory Spec2Isabelle
  imports Complex_Main "HOL-Library.Word" "HOL-Library.Signed_Division" "HOL-Library.Stream"
begin

section \<open>MatrixRGB: the digital-rain engine of main.go\<close>

text \<open>
  A shallow embedding of the functions of \<^verbatim>\<open>src/main.go\<close> that the specification
  talks about: \<^verbatim>\<open>calculateFrameDelay\<close>, \<^verbatim>\<open>calculateColumnCount\<close>,
  \<^verbatim>\<open>buildRainbowTable\<close>, \<^verbatim>\<open>rainbowColor\<close>, \<^verbatim>\<open>initColumns\<close>,
  \<^verbatim>\<open>drawColumnFrame\<close> and \<^verbatim>\<open>parseArguments\<close>.

  Go's \<^verbatim>\<open>int\<close> is modelled as a 64-bit two's-complement word (the amd64 and arm64
  builds): \<open>+\<close>, \<open>-\<close> and \<open>*\<close> wrap around, comparisons are the signed ones
  (\<open><s\<close>, \<open>\<le>s\<close>), and \<^verbatim>\<open>/\<close> and \<^verbatim>\<open>%\<close> truncate towards zero.
\<close>

subsection \<open>Go integers\<close>

type_synonym goint = "64 word"

text \<open>Go's \<^verbatim>\<open>a / b\<close> and \<^verbatim>\<open>a % b\<close> on \<^verbatim>\<open>int\<close>, for a divisor that is not zero
  (a zero divisor panics; every call site below divides by a non-zero value or checks first).\<close>

definition godiv :: "goint \<Rightarrow> goint \<Rightarrow> goint" where
  "godiv a b = word_of_int (sint a sdiv sint b)"

definition gorem :: "goint \<Rightarrow> goint \<Rightarrow> goint" where
  "gorem a b = word_of_int (sint a smod sint b)"

subsection \<open>Frame delay and column count\<close>

text \<open>\<^verbatim>\<open>time.Millisecond\<close>: a \<^verbatim>\<open>time.Duration\<close> is an \<^verbatim>\<open>int64\<close> count of nanoseconds.\<close>

definition millisecond :: goint where
  "millisecond = 1000000"

text \<open>
  \<^verbatim>\<open>
  func calculateFrameDelay(speed int) time.Duration {
      ms := 160 - speed*12
      if ms < 20 { ms = 20 }
      return time.Duration(ms) * time.Millisecond
  }
  \<close>
\<close>

definition calculateFrameDelay :: "goint \<Rightarrow> goint" where
  "calculateFrameDelay speed =
     (let ms = 160 - speed * 12;
          ms = (if ms <s 20 then 20 else ms)
      in ms * millisecond)"

text \<open>
  \<^verbatim>\<open>
  func calculateColumnCount(width, density int) int {
      columns := width * density / 100
      if columns < 1 { columns = 1 }
      if columns > width { columns = width }
      return columns
  }
  \<close>
  Go's \<^verbatim>\<open>int\<close> has 32 bits on the linux/arm build and 64 bits on the amd64 and arm64
  builds of \<^verbatim>\<open>build.sh\<close>. This function is defined for a word of any width \<open>'w\<close> and
  its properties are stated at both widths; \<open>wdiv\<close> is Go's \<^verbatim>\<open>/\<close> at that width.
\<close>

definition wdiv :: "'w::len word \<Rightarrow> 'w word \<Rightarrow> 'w word" where
  "wdiv a b = word_of_int (sint a sdiv sint b)"

definition calculateColumnCount :: "'w::len word \<Rightarrow> 'w word \<Rightarrow> 'w word" where
  "calculateColumnCount width density =
     (let columns = wdiv (width * density) 100;
          columns = (if columns <s 1 then 1 else columns);
          columns = (if width <s columns then width else columns)
      in columns)"

text \<open>The specification's \<open>clamp(x, lo, hi)\<close> on the integers, written from its words (not
  from the code).\<close>

definition clamp :: "int \<Rightarrow> int \<Rightarrow> int \<Rightarrow> int" where
  "clamp x lo hi = (if x < lo then lo else if hi < x then hi else x)"

subsection \<open>Errors and the random source\<close>

text \<open>A panic ends the program; the model returns it as a value (\<open>Inl\<close>).\<close>

datatype panic = IntnPanic | MakeSlicePanic

text \<open>
  The global source of \<^verbatim>\<open>math/rand\<close> is an unknown stream of raw values, passed in and
  returned. \<^verbatim>\<open>rand.Intn(n)\<close> "returns a non-negative pseudo-random number in the
  half-open interval [0,n)" and "panics if n <= 0": reducing an arbitrary raw value
  modulo \<open>n\<close> gives every value of the interval and no other.
\<close>

type_synonym rng = "nat stream"

definition Intn :: "goint \<Rightarrow> rng \<Rightarrow> panic + (goint \<times> rng)" where
  "Intn n rs =
     (if n \<le>s 0 then Inl IntnPanic
      else Inr (word_of_nat (shd rs mod nat (sint n)), stl rs))"

subsection \<open>Columns\<close>

type_synonym rune = "32 word"

text \<open>The 44 half-width katakana code points of \<^verbatim>\<open>katakanaChars\<close> (U+FF71 ...).\<close>

definition katakanaChars :: "rune list" where
  "katakanaChars =
     [65393, 65394, 65395, 65396, 65397, 65398, 65399, 65400, 65401, 65402,
      65403, 65404, 65405, 65406, 65407, 65408, 65409, 65410, 65411, 65412,
      65413, 65414, 65415, 65416, 65417, 65418, 65419, 65420, 65421, 65422,
      65423, 65424, 65425, 65426, 65427, 65428, 65429, 65430, 65431, 65432,
      65432, 65436, 65438, 65439]"

text \<open>The struct \<^verbatim>\<open>column\<close>; its field \<^verbatim>\<open>length\<close> is \<open>length_col\<close> here.\<close>

record column =
  active :: bool
  head :: goint
  gap :: goint
  length_col :: goint
  colorOffset :: goint
  lastChar :: rune

text \<open>The zero value of the struct, as \<^verbatim>\<open>make([]column, count)\<close> creates it.\<close>

definition zeroColumn :: column where
  "zeroColumn = \<lparr>active = False, head = 0, gap = 0, length_col = 0, colorOffset = 0,
     lastChar = 0\<rparr>"

text \<open>
  What \<^verbatim>\<open>drawColumnFrame\<close> writes, one constructor for each of its three
  \<^verbatim>\<open>Fprintf\<close> calls, with the arguments of the call (row, column, colour, glyph):
  \<^item> \<open>DrawHead\<close>: \<^verbatim>\<open>"\033[%d;%dH\033[1;38;2;%sm%s"\<close>, the bold head glyph;
  \<^item> \<open>DrawTrail\<close>: \<^verbatim>\<open>"\033[%d;%dH\033[2;38;2;%sm%s"\<close>, the dim glyph behind it;
  \<^item> \<open>Erase\<close>: \<^verbatim>\<open>"\033[0m\033[%d;%dH "\<close>, a blank.
\<close>

datatype instr =
    DrawHead goint goint string rune
  | DrawTrail goint goint string rune
  | Erase goint goint

text \<open>
  \<^verbatim>\<open>
  func rainbowColor(table []string, position int) string {
      if len(table) == 0 { return "255;255;255" }
      index := position % len(table)
      if index < 0 { index += len(table) }
      return table[index]
  }
  \<close>
  The index is within the table (lemma \<open>rainbowColor_index\<close> below), so the read never
  panics.
\<close>

definition rainbowColor :: "string list \<Rightarrow> goint \<Rightarrow> string" where
  "rainbowColor table position =
     (if length table = 0 then ''255;255;255''
      else
        let n = (word_of_nat (length table) :: goint);
            index = gorem position n;
            index = (if index <s 0 then index + n else index)
        in table ! unat index)"

text \<open>
  \<^verbatim>\<open>initColumns\<close>: the body of its loop, the loop over the \<open>count\<close> fresh columns,
  and the function. \<^verbatim>\<open>make\<close> panics on a negative length.
\<close>

definition initColumn :: "goint \<Rightarrow> goint \<Rightarrow> rng \<Rightarrow> panic + (column \<times> rng)" where
  "initColumn height rainbowLen rng =
     (case Intn 10 rng of
        Inl e \<Rightarrow> Inl e
      | Inr (g, rng1) \<Rightarrow>
     (case Intn (godiv height 2 + 1) rng1 of
        Inl e \<Rightarrow> Inl e
      | Inr (l, rng2) \<Rightarrow>
     (case Intn rainbowLen rng2 of
        Inl e \<Rightarrow> Inl e
      | Inr (r, rng3) \<Rightarrow>
          Inr (zeroColumn\<lparr>gap := g + 5, length_col := l + 3, colorOffset := r\<rparr>, rng3))))"

fun initLoop :: "nat \<Rightarrow> goint \<Rightarrow> goint \<Rightarrow> rng \<Rightarrow> panic + (column list \<times> rng)" where
  "initLoop 0 height rainbowLen rng = Inr ([], rng)"
| "initLoop (Suc k) height rainbowLen rng =
     (case initColumn height rainbowLen rng of
        Inl e \<Rightarrow> Inl e
      | Inr (c, rng1) \<Rightarrow>
     (case initLoop k height rainbowLen rng1 of
        Inl e \<Rightarrow> Inl e
      | Inr (cs, rng2) \<Rightarrow> Inr (c # cs, rng2)))"

definition initColumns :: "goint \<Rightarrow> goint \<Rightarrow> goint \<Rightarrow> rng \<Rightarrow> panic + (column list \<times> rng)" where
  "initColumns count height rainbowLen rng =
     (let rainbowLen = (if rainbowLen = 0 then 1 else rainbowLen)
      in if count <s 0 then Inl MakeSlicePanic
         else initLoop (nat (sint count)) height rainbowLen rng)"

text \<open>
  \<^verbatim>\<open>drawColumnFrame\<close>, in the order of the source. The first block is the head glyph
  (lines 260-265), the only block before the reset that reads the random source.
\<close>

definition drawHead ::
  "goint \<Rightarrow> column \<Rightarrow> goint \<Rightarrow> string list \<Rightarrow> rng \<Rightarrow> panic + (column \<times> instr list \<times> rng)" where
  "drawHead idx col height rainbowTable rng =
     (if 1 \<le>s head col \<and> head col \<le>s height then
        (case Intn (word_of_nat (length katakanaChars)) rng of
           Inl e \<Rightarrow> Inl e
         | Inr (k, rng1) \<Rightarrow>
             let char = katakanaChars ! unat k;
                 color = rainbowColor rainbowTable (head col + colorOffset col)
             in Inr (col\<lparr>lastChar := char\<rparr>, [DrawHead (head col) (idx + 1) color char], rng1))
      else Inr (col, [], rng))"

text \<open>The trail glyph (lines 267-271) and the erased cell (lines 273-276).\<close>

definition drawTrail :: "goint \<Rightarrow> goint \<Rightarrow> goint \<Rightarrow> rune \<Rightarrow> goint \<Rightarrow> string list \<Rightarrow> instr list" where
  "drawTrail idx h colorOff prevChar height rainbowTable =
     (let trailPos = h - 1
      in if 1 \<le>s trailPos \<and> trailPos \<le>s height \<and> prevChar \<noteq> 0
         then [DrawTrail trailPos (idx + 1) (rainbowColor rainbowTable (trailPos + colorOff)) prevChar]
         else [])"

definition drawErase :: "goint \<Rightarrow> goint \<Rightarrow> goint \<Rightarrow> goint \<Rightarrow> instr list" where
  "drawErase idx h len height =
     (let erasePos = h - len
      in if 1 \<le>s erasePos \<and> erasePos \<le>s height then [Erase erasePos (idx + 1)] else [])"

text \<open>The reset of lines 280-287; \<^verbatim>\<open>rand.Intn\<close> panics before the \<^verbatim>\<open>%\<close> can divide by zero.\<close>

definition resetColumn ::
  "column \<Rightarrow> goint \<Rightarrow> goint \<Rightarrow> string list \<Rightarrow> rng \<Rightarrow> panic + (column \<times> rng)" where
  "resetColumn col colorOff height rainbowTable rng =
     (case Intn 10 rng of
        Inl e \<Rightarrow> Inl e
      | Inr (g, rng1) \<Rightarrow>
     (case Intn (godiv height 2 + 1) rng1 of
        Inl e \<Rightarrow> Inl e
      | Inr (l, rng2) \<Rightarrow>
     (case Intn (word_of_nat (length rainbowTable)) rng2 of
        Inl e \<Rightarrow> Inl e
      | Inr (r, rng3) \<Rightarrow>
          Inr (col\<lparr>active := False, head := 0, gap := g + 5, length_col := l + 3,
                 colorOffset := gorem (colorOff + r) (word_of_nat (length rainbowTable)),
                 lastChar := 0\<rparr>, rng3))))"

definition drawColumnFrame ::
  "goint \<Rightarrow> column \<Rightarrow> goint \<Rightarrow> string list \<Rightarrow> rng \<Rightarrow> panic + (column \<times> instr list \<times> rng)" where
  "drawColumnFrame idx col height rainbowTable rng =
     (if \<not> active col \<and> 0 <s gap col then Inr (col\<lparr>gap := gap col - 1\<rparr>, [], rng)
      else
        let col1 = (if \<not> active col then col\<lparr>active := True, head := 1\<rparr> else col);
            h = head col1;
            len = length_col col1;
            colorOff = colorOffset col1;
            prevChar = lastChar col1
        in case drawHead idx col1 height rainbowTable rng of
             Inl e \<Rightarrow> Inl e
           | Inr (col2, out1, rng1) \<Rightarrow>
               let out = out1 @ drawTrail idx h colorOff prevChar height rainbowTable
                              @ drawErase idx h len height;
                   col3 = col2\<lparr>head := h + 1\<rparr>
               in if height + len <s h then
                    (case resetColumn col3 colorOff height rainbowTable rng1 of
                       Inl e \<Rightarrow> Inl e
                     | Inr (col4, rng2) \<Rightarrow> Inr (col4, out, rng2))
                  else Inr (col3, out, rng1))"

text \<open>
  The column states of a run: those \<^verbatim>\<open>initColumns\<close> creates (at start-up and on a
  resize) and those \<^verbatim>\<open>drawColumnFrame\<close> leaves behind, for any terminal height,
  table and random source.
\<close>

inductive reachable :: "column \<Rightarrow> bool" where
  created: "initColumns count height rainbowLen rng = Inr (cols, rng') \<Longrightarrow> c \<in> set cols
              \<Longrightarrow> reachable c"
| advanced: "reachable c \<Longrightarrow> drawColumnFrame idx c height tbl rng = Inr (c', out, rng')
              \<Longrightarrow> reachable c'"

subsection \<open>The rainbow table\<close>

text \<open>
  \<^verbatim>\<open>buildRainbowTable\<close> computes in \<^verbatim>\<open>float64\<close>. The arithmetic of the machine is a
  parameter of the model, so that what is proved holds for every implementation of it: a
  record of the operations the function uses, on a type \<open>'f\<close> of \<^verbatim>\<open>float64\<close> values.
  \<^item> \<open>ofInt\<close> is the conversion \<^verbatim>\<open>float64(i)\<close> of an \<^verbatim>\<open>int\<close>; the constants 127, 128, 3 and 2
    of the source are converted in the same way.
  \<^item> \<open>constTwoPi\<close> is the \<^verbatim>\<open>float64\<close> stored for the constant \<^verbatim>\<open>2 * math.Pi\<close>.
  \<^item> \<open>fmul\<close> and \<open>fdiv\<close> are \<^verbatim>\<open>x * y\<close> and \<^verbatim>\<open>x / y\<close>; \<open>fmuladd\<close> is \<^verbatim>\<open>x*y + z\<close>, which Go
    allows an implementation to fuse into one operation with a single rounding.
  \<^item> \<open>fsin\<close> is \<^verbatim>\<open>math.Sin\<close>.
  \<^item> \<open>valueOf\<close> gives the real number a finite value stands for, and \<open>None\<close> for a NaN or
    an infinity.
  \<^item> \<open>convOther\<close> is the result of \<^verbatim>\<open>int(x)\<close> for a value that \<^verbatim>\<open>int\<close> cannot represent
    (the conversion succeeds, with a result that depends on the implementation).
\<close>

record 'f fpu =
  ofInt :: "goint \<Rightarrow> 'f"
  constTwoPi :: "'f"
  fmul :: "'f \<Rightarrow> 'f \<Rightarrow> 'f"
  fdiv :: "'f \<Rightarrow> 'f \<Rightarrow> 'f"
  fmuladd :: "'f \<Rightarrow> 'f \<Rightarrow> 'f \<Rightarrow> 'f"
  fsin :: "'f \<Rightarrow> 'f"
  valueOf :: "'f \<Rightarrow> real option"
  convOther :: "'f \<Rightarrow> goint"

text \<open>
  Go's conversion \<^verbatim>\<open>int(x)\<close> of a floating-point value discards the fraction (it truncates
  towards zero).
\<close>

definition trunc :: "real \<Rightarrow> int" where
  "trunc v = (if 0 \<le> v then \<lfloor>v\<rfloor> else \<lceil>v\<rceil>)"

definition floatToInt :: "'f fpu \<Rightarrow> 'f \<Rightarrow> goint" where
  "floatToInt m x =
     (case valueOf m x of
        None \<Rightarrow> convOther m x
      | Some v \<Rightarrow>
          if - (2 ^ 63) \<le> trunc v \<and> trunc v < 2 ^ 63 then word_of_int (trunc v)
          else convOther m x)"




text \<open>
  The body of the loop of \<^verbatim>\<open>buildRainbowTable\<close> for the index \<open>i\<close>. The \<^verbatim>\<open>float64\<close> values
  that are converted (lines 212-214):
  \<^verbatim>\<open>
      math.Sin(freq*float64(i))*127 + 128
      math.Sin(freq*float64(i)+twoPi/3)*127 + 128
      math.Sin(freq*float64(i)+2*twoPi/3)*127 + 128
  \<close>
\<close>

definition redValue :: "'f fpu \<Rightarrow> 'f \<Rightarrow> goint \<Rightarrow> 'f" where
  "redValue m freq i =
     fmuladd m (fsin m (fmul m freq (ofInt m i))) (ofInt m 127) (ofInt m 128)"

definition greenValue :: "'f fpu \<Rightarrow> 'f \<Rightarrow> goint \<Rightarrow> 'f" where
  "greenValue m freq i =
     (let twoPi = constTwoPi m
      in fmuladd m (fsin m (fmuladd m freq (ofInt m i) (fdiv m twoPi (ofInt m 3))))
           (ofInt m 127) (ofInt m 128))"

definition blueValue :: "'f fpu \<Rightarrow> 'f \<Rightarrow> goint \<Rightarrow> 'f" where
  "blueValue m freq i =
     (let twoPi = constTwoPi m
      in fmuladd m
           (fsin m (fmuladd m freq (ofInt m i) (fdiv m (fmul m (ofInt m 2) twoPi) (ofInt m 3))))
           (ofInt m 127) (ofInt m 128))"

text \<open>The three channels and the formatted entry \<^verbatim>\<open>"%d;%d;%d"\<close> (line 215).\<close>

definition rainbowRGB :: "'f fpu \<Rightarrow> 'f \<Rightarrow> goint \<Rightarrow> goint \<times> goint \<times> goint" where
  "rainbowRGB m freq i =
     (let r = floatToInt m (redValue m freq i);
          g = floatToInt m (greenValue m freq i);
          b = floatToInt m (blueValue m freq i)
      in (r, g, b))"





definition specGreen :: "real \<Rightarrow> nat \<Rightarrow> real" where
  "specGreen f i = sin (f * real i + 2 * pi / 3) * 127 + 128"


subsection \<open>Command-line arguments\<close>

text \<open>
  \<^verbatim>\<open>strconv.Atoi\<close> of the Go library, from its documentation: an optional sign, then one
  or more decimal digits, denoting a value that fits an \<^verbatim>\<open>int\<close>; anything else is an error
  (\<open>None\<close>).
\<close>

definition isDigit :: "char \<Rightarrow> bool" where
  "isDigit c \<longleftrightarrow> 48 \<le> (of_char c :: nat) \<and> (of_char c :: nat) \<le> 57"

fun decimal :: "nat \<Rightarrow> string \<Rightarrow> nat" where
  "decimal n [] = n"
| "decimal n (c # cs) = decimal (n * 10 + (of_char c - 48)) cs"

definition Atoi :: "string \<Rightarrow> goint option" where
  "Atoi s =
     (let neg = (s \<noteq> [] \<and> hd s = CHR ''-'');
          ds = (if s \<noteq> [] \<and> (hd s = CHR ''-'' \<or> hd s = CHR ''+'') then tl s else s)
      in if ds = [] \<or> \<not> list_all isDigit ds then None
         else
           let n = int (decimal 0 ds)
           in if neg then (if n \<le> 2 ^ 63 then Some (word_of_int (- n)) else None)
              else (if n < 2 ^ 63 then Some (word_of_int n) else None))"

record config =
  speed :: goint
  density :: goint

definition defaultSpeed :: goint where
  "defaultSpeed = 5"

definition defaultDensity :: goint where
  "defaultDensity = 80"

text \<open>The four \<^verbatim>\<open>fmt.Errorf\<close> messages of \<^verbatim>\<open>parseArguments\<close>.\<close>

datatype argError =
    MissingValue string
  | SpeedError
  | DensityError
  | InvalidOption string

text \<open>
  The loop of \<^verbatim>\<open>parseArguments\<close> from the current argument on; the result is the triple
  \<^verbatim>\<open>(config, bool, error)\<close> of the source, \<open>None\<close> for \<^verbatim>\<open>nil\<close>.
\<close>

fun parseLoop :: "config \<Rightarrow> string list \<Rightarrow> config \<times> bool \<times> argError option" where
  "parseLoop cfg [] = (cfg, False, None)"
| "parseLoop cfg (arg # rest) =
     (if arg = ''-h'' \<or> arg = ''--help'' then (cfg, True, None)
      else if arg = ''-s'' \<or> arg = ''--speed'' then
        (case rest of
           [] \<Rightarrow> (cfg, False, Some (MissingValue arg))
         | v # rest' \<Rightarrow>
             (case Atoi v of
                None \<Rightarrow> (cfg, False, Some SpeedError)
              | Some value \<Rightarrow>
                  if value <s 1 \<or> 10 <s value then (cfg, False, Some SpeedError)
                  else parseLoop (cfg\<lparr>speed := value\<rparr>) rest'))
      else if arg = ''-d'' \<or> arg = ''--density'' then
        (case rest of
           [] \<Rightarrow> (cfg, False, Some (MissingValue arg))
         | v # rest' \<Rightarrow>
             (case Atoi v of
                None \<Rightarrow> (cfg, False, Some DensityError)
              | Some value \<Rightarrow>
                  if value <s 1 \<or> 100 <s value then (cfg, False, Some DensityError)
                  else parseLoop (cfg\<lparr>density := value\<rparr>) rest'))
      else (cfg, False, Some (InvalidOption arg)))"

definition parseArguments :: "string list \<Rightarrow> config \<times> bool \<times> argError option" where
  "parseArguments args = parseLoop \<lparr>speed = defaultSpeed, density = defaultDensity\<rparr> args"

section \<open>Properties\<close>

subsection \<open>Signed values of 64-bit words\<close>

lemma sint_in_range:
  fixes k :: int
  assumes "- (2 ^ 63) \<le> k" "k < 2 ^ 63"
  shows "sint (word_of_int k :: goint) = k"
proof -
  have "sint (word_of_int k :: goint) = signed_take_bit 63 k"
    by (simp add: sint_sbintrunc')
  also have "\<dots> = k"
    using assms by (intro signed_take_bit_int_eq_self) simp_all
  finally show ?thesis .
qed

lemma sint_goint_bounds: "- (2 ^ 63) \<le> sint (x :: goint) \<and> sint x < 2 ^ 63"
  using sint_ge [of x] sint_lt [of x] by simp

subsection \<open>Frame delay\<close>

lemma sint_ms:
  fixes spd :: goint
  assumes "- 768614336391 \<le> sint spd" "sint spd \<le> 768614336404564650"
  shows "sint (160 - spd * 12) = 160 - sint spd * 12"
proof -
  have "160 - spd * 12 = word_of_int (160 - sint spd * 12)"
    by simp
  moreover have "- (2 ^ 63) \<le> 160 - sint spd * 12" "160 - sint spd * 12 < 2 ^ 63"
    using assms by simp_all
  ultimately show ?thesis
    using sint_in_range by metis
qed

lemma calculateFrameDelay_sint:
  fixes spd :: goint
  assumes "- 768614336391 \<le> sint spd" "sint spd \<le> 768614336404564650"
  shows "sint (calculateFrameDelay spd) = max 20 (160 - sint spd * 12) * 1000000"
proof -
  let ?m = "max 20 (160 - sint spd * 12)"
  have ms: "sint (160 - spd * 12) = 160 - sint spd * 12"
    using assms by (rule sint_ms)
  have "calculateFrameDelay spd = word_of_int (?m * 1000000)"
    by (simp add: calculateFrameDelay_def millisecond_def Let_def word_sless_alt ms max_def)
  moreover have "- (2 ^ 63) \<le> ?m * 1000000" "?m * 1000000 < 2 ^ 63"
    using assms by (simp_all add: max_def)
  ultimately show ?thesis
    using sint_in_range by metis
qed

lemma calculateFrameDelay_mono:
  fixes a b :: goint
  assumes "- 768614336391 \<le> sint a" "a \<le>s b" "sint b \<le> 768614336404564650"
  shows "calculateFrameDelay b \<le>s calculateFrameDelay a"
proof -
  have ab: "sint a \<le> sint b"
    using assms(2) by (simp add: word_sle_eq)
  have "sint (calculateFrameDelay a) = max 20 (160 - sint a * 12) * 1000000"
    using assms ab by (intro calculateFrameDelay_sint) simp_all
  moreover have "sint (calculateFrameDelay b) = max 20 (160 - sint b * 12) * 1000000"
    using assms ab by (intro calculateFrameDelay_sint) simp_all
  ultimately show ?thesis
    using ab by (simp add: word_sle_eq max_def)
qed

lemma calculateFrameDelay_clamped:
  "160 - spd * 12 <s 20 \<Longrightarrow> calculateFrameDelay spd = 20 * millisecond"
  by (simp add: calculateFrameDelay_def)

text \<open>
  Claim C4, as stated, fails on the code in two places. Speed 11 is not clamped: there
  \<open>160 - 11*12 = 28\<close>, so the delay is 28 ms, not 20 ms (12 is the first speed that
  clamps). And over every \<^verbatim>\<open>int\<close> the delay is neither \<open>max(20, 160 - speed*12)\<close>
  milliseconds nor monotonically non-increasing: at \<open>speed = 1537228672809129218\<close> the
  product \<open>speed*12\<close> wraps around to \<open>-1000\<close>, so the delay is 1160 ms, above the
  28 ms of the smaller speed 11.
\<close>

theorem calculateFrameDelay_counterexample:
  "calculateFrameDelay 11 = 28 * millisecond
   \<and> calculateFrameDelay 11 \<noteq> 20 * millisecond
   \<and> (11 :: goint) \<le>s 1537228672809129218
   \<and> calculateFrameDelay 1537228672809129218 = 1160 * millisecond
   \<and> \<not> calculateFrameDelay 1537228672809129218 \<le>s calculateFrameDelay 11"
  by (simp add: calculateFrameDelay_def millisecond_def word_sless_alt word_sle_eq)

text \<open>
  Claim C4, amended: for every speed from \<open>-768614336391\<close> to \<open>768614336404564650\<close> (the
  speeds at which no 64-bit operation of the function overflows; the validated range 1..10
  lies inside) the delay is \<open>max(20, 160 - speed*12)\<close> milliseconds; on that range it is
  monotonically non-increasing in speed; it is 148 ms for speed 1, 40 ms for speed 10,
  28 ms for speed 11 and 20 ms for speed 12; and for every speed at all, whenever the
  computed \<open>160 - speed*12\<close> falls below 20 the delay is 20 ms.
\<close>

theorem calculateFrameDelay_spec:
  fixes spd a b s :: goint
  shows "(- 768614336391 \<le> sint spd \<and> sint spd \<le> 768614336404564650 \<longrightarrow>
            sint (calculateFrameDelay spd) = max 20 (160 - sint spd * 12) * 1000000)
       \<and> (- 768614336391 \<le> sint a \<and> a \<le>s b \<and> sint b \<le> 768614336404564650 \<longrightarrow>
            calculateFrameDelay b \<le>s calculateFrameDelay a)
       \<and> calculateFrameDelay 1 = 148 * millisecond
       \<and> calculateFrameDelay 10 = 40 * millisecond
       \<and> calculateFrameDelay 11 = 28 * millisecond
       \<and> calculateFrameDelay 12 = 20 * millisecond
       \<and> (160 - s * 12 <s 20 \<longrightarrow> calculateFrameDelay s = 20 * millisecond)"
proof -
  have "calculateFrameDelay 1 = 148 * millisecond"
    by (simp add: calculateFrameDelay_def word_sless_alt)
  moreover have "calculateFrameDelay 10 = 40 * millisecond"
    by (simp add: calculateFrameDelay_def word_sless_alt)
  moreover have "calculateFrameDelay 11 = 28 * millisecond"
    by (simp add: calculateFrameDelay_def word_sless_alt)
  moreover have "calculateFrameDelay 12 = 20 * millisecond"
    by (simp add: calculateFrameDelay_def word_sless_alt)
  ultimately show ?thesis
    using calculateFrameDelay_sint [of spd] calculateFrameDelay_mono [of a b]
      calculateFrameDelay_clamped [of s]
    by blast
qed

theorem calculateFrameDelay_spec_witness:
  "- 768614336391 \<le> sint (5 :: goint) \<and> sint (5 :: goint) \<le> 768614336404564650
   \<and> sint (calculateFrameDelay 5) = 100 * 1000000
   \<and> - 768614336391 \<le> sint (2 :: goint) \<and> (2 :: goint) \<le>s 7
   \<and> sint (7 :: goint) \<le> 768614336404564650
   \<and> calculateFrameDelay 7 \<le>s calculateFrameDelay 2
   \<and> (160 - 13 * 12 :: goint) <s 20
   \<and> calculateFrameDelay 13 = 20 * millisecond"
  using calculateFrameDelay_spec [of 5 2 7 13]
  by (simp add: word_sle_eq word_sless_alt)

subsection \<open>Column count\<close>

lemma sint_in_range32:
  fixes k :: int
  assumes "- (2 ^ 31) \<le> k" "k < 2 ^ 31"
  shows "sint (word_of_int k :: 32 word) = k"
proof -
  have "sint (word_of_int k :: 32 word) = signed_take_bit 31 k"
    by (simp add: sint_sbintrunc')
  also have "\<dots> = k"
    using assms by (intro signed_take_bit_int_eq_self) simp_all
  finally show ?thesis .
qed

lemma sdiv100_bounds:
  fixes k B :: int
  assumes "- B \<le> k" "k < B"
  shows "- B \<le> k sdiv 100 \<and> k sdiv 100 < B"
proof -
  have q: "k sdiv 100 = (if 0 \<le> k then k div 100 else - ((- k) div 100))"
    by (simp add: signed_divide_int_def sgn_if)
  show ?thesis
    using assms unfolding q by (simp, linarith)
qed

lemma sint_wdiv100_64:
  "sint (wdiv a 100 :: 64 word) = sint a sdiv 100"
proof -
  have "- (2 ^ 63) \<le> sint a sdiv 100 \<and> sint a sdiv 100 < 2 ^ 63"
    using sint_goint_bounds [of a] by (intro sdiv100_bounds) simp_all
  moreover have "wdiv a 100 = (word_of_int (sint a sdiv 100) :: 64 word)"
    by (simp add: wdiv_def)
  ultimately show ?thesis
    using sint_in_range [of "sint a sdiv 100"] by simp
qed

lemma sint_wdiv100_32:
  "sint (wdiv a 100 :: 32 word) = sint a sdiv 100"
proof -
  have "- (2 ^ 31) \<le> sint a" "sint a < 2 ^ 31"
    using sint_ge [of a] sint_lt [of a] by simp_all
  then have "- (2 ^ 31) \<le> sint a sdiv 100 \<and> sint a sdiv 100 < 2 ^ 31"
    by (intro sdiv100_bounds) simp_all
  moreover have "wdiv a 100 = (word_of_int (sint a sdiv 100) :: 32 word)"
    by (simp add: wdiv_def)
  ultimately show ?thesis
    using sint_in_range32 [of "sint a sdiv 100"] by simp
qed

lemma calculateColumnCount_sint64:
  fixes width dens :: "64 word"
  shows "sint (calculateColumnCount width dens)
           = min (sint width) (max 1 (sint (width * dens) sdiv 100))"
  by (simp add: calculateColumnCount_def Let_def word_sless_alt sint_wdiv100_64 min_def max_def)

lemma calculateColumnCount_sint32:
  fixes width dens :: "32 word"
  shows "sint (calculateColumnCount width dens)
           = min (sint width) (max 1 (sint (width * dens) sdiv 100))"
  by (simp add: calculateColumnCount_def Let_def word_sless_alt sint_wdiv100_32 min_def max_def)

lemma sint_product64:
  fixes width dens :: "64 word"
  assumes "- (2 ^ 63) \<le> sint width * sint dens" "sint width * sint dens < 2 ^ 63"
  shows "sint (width * dens) = sint width * sint dens"
proof -
  have "width * dens = word_of_int (sint width * sint dens)"
    by simp
  then show ?thesis
    using assms sint_in_range [of "sint width * sint dens"] by simp
qed

lemma sint_product32:
  fixes width dens :: "32 word"
  assumes "- (2 ^ 31) \<le> sint width * sint dens" "sint width * sint dens < 2 ^ 31"
  shows "sint (width * dens) = sint width * sint dens"
proof -
  have "width * dens = word_of_int (sint width * sint dens)"
    by simp
  then show ?thesis
    using assms sint_in_range32 [of "sint width * sint dens"] by simp
qed

lemma min_max_clamp:
  fixes q w :: int
  shows "1 \<le> w \<Longrightarrow> min w (max 1 q) = clamp q 1 w"
    and "1 \<le> w \<Longrightarrow> 1 \<le> min w (max 1 q) \<and> min w (max 1 q) \<le> w"
  by (simp_all add: clamp_def min_def max_def)

text \<open>
  Claim C7, as stated, fails on the code where the product \<open>width * density\<close> does not fit
  an \<^verbatim>\<open>int\<close>: the product wraps around before the division. With 64 bits, width
  \<open>9223372036854775807\<close> (a terminal width that the \<^verbatim>\<open>COLUMNS\<close> fallback of
  \<^verbatim>\<open>getTerminalSize\<close> accepts) and density 100 give 1 column; with 32 bits, width
  \<open>30000000\<close> and density 100 give 1 column. In both cases
  \<open>clamp(width * density / 100, 1, width)\<close> is the width.
\<close>

theorem calculateColumnCount_counterexample:
  "calculateColumnCount (9223372036854775807 :: 64 word) 100 = 1
   \<and> clamp ((9223372036854775807 * 100) sdiv 100) 1 9223372036854775807 = 9223372036854775807
   \<and> calculateColumnCount (30000000 :: 32 word) 100 = 1
   \<and> clamp ((30000000 * 100) sdiv 100) 1 30000000 = 30000000"
  by (simp add: calculateColumnCount_def wdiv_def clamp_def word_sless_alt)

text \<open>
  Claim C7, amended: whenever the product \<open>width * density\<close> fits an \<^verbatim>\<open>int\<close> (of 64
  bits, or of 32 bits on the linux/arm build), \<^verbatim>\<open>calculateColumnCount(width, density)\<close> is
  \<open>min(width, max(1, width * density / 100))\<close> with truncating integer division, which for
  every width of at least 1 is \<open>clamp(width * density / 100, 1, width)\<close>; in particular
  \<^verbatim>\<open>calculateColumnCount(80, 80)\<close> is 64; and for every width of at least 1 and every
  density, whether the product fits or not, the result lies in \<open>[1, width]\<close>.
\<close>

theorem calculateColumnCount_spec:
  fixes width dens :: "64 word" and width' dens' :: "32 word"
  shows "calculateColumnCount (80 :: 64 word) 80 = 64
       \<and> calculateColumnCount (80 :: 32 word) 80 = 64
       \<and> (- (2 ^ 63) \<le> sint width * sint dens \<and> sint width * sint dens < 2 ^ 63 \<longrightarrow>
             sint (calculateColumnCount width dens)
               = min (sint width) (max 1 ((sint width * sint dens) sdiv 100))
             \<and> (1 \<le> sint width \<longrightarrow>
                  sint (calculateColumnCount width dens)
                    = clamp ((sint width * sint dens) sdiv 100) 1 (sint width)))
       \<and> (- (2 ^ 31) \<le> sint width' * sint dens' \<and> sint width' * sint dens' < 2 ^ 31 \<longrightarrow>
             sint (calculateColumnCount width' dens')
               = min (sint width') (max 1 ((sint width' * sint dens') sdiv 100))
             \<and> (1 \<le> sint width' \<longrightarrow>
                  sint (calculateColumnCount width' dens')
                    = clamp ((sint width' * sint dens') sdiv 100) 1 (sint width')))
       \<and> (1 \<le> sint width \<longrightarrow>
             1 \<le> sint (calculateColumnCount width dens)
             \<and> sint (calculateColumnCount width dens) \<le> sint width)
       \<and> (1 \<le> sint width' \<longrightarrow>
             1 \<le> sint (calculateColumnCount width' dens')
             \<and> sint (calculateColumnCount width' dens') \<le> sint width')"
proof -
  have v: "calculateColumnCount (80 :: 64 word) 80 = 64" "calculateColumnCount (80 :: 32 word) 80 = 64"
    by (simp_all add: calculateColumnCount_def wdiv_def word_sless_alt)
  have a: "sint (calculateColumnCount width dens)
               = min (sint width) (max 1 ((sint width * sint dens) sdiv 100))"
    if "- (2 ^ 63) \<le> sint width * sint dens \<and> sint width * sint dens < 2 ^ 63"
    using that by (simp add: calculateColumnCount_sint64 sint_product64)
  have b: "sint (calculateColumnCount width' dens')
               = min (sint width') (max 1 ((sint width' * sint dens') sdiv 100))"
    if "- (2 ^ 31) \<le> sint width' * sint dens' \<and> sint width' * sint dens' < 2 ^ 31"
    using that by (simp add: calculateColumnCount_sint32 sint_product32)
  have c: "1 \<le> sint (calculateColumnCount width dens)
             \<and> sint (calculateColumnCount width dens) \<le> sint width" if "1 \<le> sint width"
    unfolding calculateColumnCount_sint64 using that by (rule min_max_clamp(2))
  have d: "1 \<le> sint (calculateColumnCount width' dens')
             \<and> sint (calculateColumnCount width' dens') \<le> sint width'" if "1 \<le> sint width'"
    unfolding calculateColumnCount_sint32 using that by (rule min_max_clamp(2))
  have a2: "sint (calculateColumnCount width dens)
               = clamp ((sint width * sint dens) sdiv 100) 1 (sint width)"
    if "- (2 ^ 63) \<le> sint width * sint dens \<and> sint width * sint dens < 2 ^ 63"
      and "1 \<le> sint width"
    using a [OF that(1)] min_max_clamp(1) [OF that(2)] by simp
  have b2: "sint (calculateColumnCount width' dens')
               = clamp ((sint width' * sint dens') sdiv 100) 1 (sint width')"
    if "- (2 ^ 31) \<le> sint width' * sint dens' \<and> sint width' * sint dens' < 2 ^ 31"
      and "1 \<le> sint width'"
    using b [OF that(1)] min_max_clamp(1) [OF that(2)] by simp
  show ?thesis
    using v a a2 b b2 c d by blast
qed

theorem calculateColumnCount_spec_witness:
  "- (2 ^ 63) \<le> sint (120 :: 64 word) * sint (50 :: 64 word)
   \<and> sint (120 :: 64 word) * sint (50 :: 64 word) < 2 ^ 63
   \<and> 1 \<le> sint (120 :: 64 word)
   \<and> sint (calculateColumnCount (120 :: 64 word) 50) = clamp ((120 * 50) sdiv 100) 1 120
   \<and> sint (calculateColumnCount (120 :: 64 word) 50) = 60
   \<and> - (2 ^ 31) \<le> sint (120 :: 32 word) * sint (50 :: 32 word)
   \<and> sint (120 :: 32 word) * sint (50 :: 32 word) < 2 ^ 31
   \<and> 1 \<le> sint (120 :: 32 word)
   \<and> sint (calculateColumnCount (120 :: 32 word) 50) = clamp ((120 * 50) sdiv 100) 1 120
   \<and> sint (calculateColumnCount (120 :: 32 word) 50) = 60
   \<and> 1 \<le> sint (calculateColumnCount (9223372036854775807 :: 64 word) 100)
   \<and> sint (calculateColumnCount (9223372036854775807 :: 64 word) 100)
       \<le> sint (9223372036854775807 :: 64 word)
   \<and> 1 \<le> sint (calculateColumnCount (30000000 :: 32 word) 100)
   \<and> sint (calculateColumnCount (30000000 :: 32 word) 100) \<le> sint (30000000 :: 32 word)"
proof -
  have c: "clamp ((120 * 50) sdiv 100) 1 120 = 60"
    by (simp add: clamp_def)
  show ?thesis
    using calculateColumnCount_spec [of 120 50 120 50]
      calculateColumnCount_spec [of 9223372036854775807 100 30000000 100]
    by (simp add: c)
qed

subsection \<open>The random source\<close>

lemma sint_word_of_nat:
  assumes "m < 2 ^ 63"
  shows "sint (word_of_nat m :: goint) = int m"
proof -
  have "(word_of_nat m :: goint) = word_of_int (int m)"
    by simp
  moreover have "int m < int (2 ^ 63)"
    using assms by (simp only: of_nat_less_iff)
  then have "- (2 ^ 63) \<le> int m" "int m < 2 ^ 63"
    by simp_all
  ultimately show ?thesis
    using sint_in_range by metis
qed

lemma Intn_pos: "0 <s n \<Longrightarrow> Intn n rs = Inr (word_of_nat (shd rs mod nat (sint n)), stl rs)"
  by (simp add: Intn_def word_sless_alt word_sle_eq)

lemma Intn_nonpos: "n \<le>s 0 \<Longrightarrow> Intn n rs = Inl IntnPanic"
  by (simp add: Intn_def)

lemma Intn_range:
  assumes "Intn n rs = Inr (k, rs')"
  shows "0 \<le> sint k \<and> sint k < sint n \<and> rs' = stl rs"
proof -
  have pos: "0 < sint n"
    using assms by (auto simp add: Intn_def word_sle_eq split: if_splits)
  let ?m = "shd rs mod nat (sint n)"
  have k: "k = word_of_nat ?m" and rs': "rs' = stl rs"
    using assms by (auto simp add: Intn_def split: if_splits)
  have "?m < nat (sint n)"
    using pos by simp
  then have lt: "int ?m < sint n"
    by (simp only: zless_nat_eq_int_zless)
  have "sint n < 2 ^ 63"
    using sint_goint_bounds [of n] by simp
  then have "int ?m < 2 ^ 63"
    using lt by linarith
  then have "int ?m < int (2 ^ 63)"
    by simp
  then have "?m < 2 ^ 63"
    by (simp only: of_nat_less_iff)
  then have "sint k = int ?m"
    unfolding k by (rule sint_word_of_nat)
  then show ?thesis
    using lt rs' by simp
qed

lemma length_katakanaChars: "length katakanaChars = 44"
  by (simp add: katakanaChars_def)

lemma sint_godiv2: "sint (godiv h 2 + 1) = sint h sdiv 2 + 1"
proof -
  have b: "- (2 ^ 63) \<le> sint h" "sint h < 2 ^ 63"
    using sint_goint_bounds [of h] by simp_all
  have q: "sint h sdiv 2 = (if 0 \<le> sint h then sint h div 2 else - ((- sint h) div 2))"
    by (simp add: signed_divide_int_def sgn_if)
  have "godiv h 2 + 1 = word_of_int (sint h sdiv 2 + 1)"
    by (simp add: godiv_def)
  moreover have "- (2 ^ 63) \<le> sint h sdiv 2 + 1" "sint h sdiv 2 + 1 < 2 ^ 63"
    using b unfolding q by (simp_all, linarith+)
  ultimately show ?thesis
    using sint_in_range by metis
qed

subsection \<open>The blocks of an advance call\<close>

lemma drawHead_result:
  "\<exists>x out1 rng1. drawHead idx col height tbl rng = Inr (col\<lparr>lastChar := x\<rparr>, out1, rng1)
      \<and> (\<forall>r k. Erase r k \<notin> set out1)
      \<and> (\<not> (1 \<le>s head col \<and> head col \<le>s height) \<longrightarrow> out1 = [] \<and> rng1 = rng \<and> x = lastChar col)"
proof (cases "1 \<le>s head col \<and> head col \<le>s height")
  case True
  have "Intn (word_of_nat (length katakanaChars)) rng
          = Inr (word_of_nat (shd rng mod nat (sint (44 :: goint))), stl rng)"
    by (simp add: length_katakanaChars Intn_pos word_sless_alt)
  then show ?thesis
    using True by (auto simp add: drawHead_def Let_def)
next
  case False
  have "col\<lparr>lastChar := lastChar col\<rparr> = col"
    by simp
  then show ?thesis
    using False by (auto simp add: drawHead_def)
qed

lemma drawTrail_no_erase: "Erase r k \<notin> set (drawTrail idx h co pc height tbl)"
  by (simp add: drawTrail_def Let_def)

lemma drawErase_iff:
  "Erase r k \<in> set (drawErase idx h len height)
     \<longleftrightarrow> r = h - len \<and> k = idx + 1 \<and> 1 \<le>s h - len \<and> h - len \<le>s height"
  by (auto simp add: drawErase_def Let_def)

lemma resetColumn_Inr:
  assumes "resetColumn col co height tbl rng = Inr (c', rng')"
  shows "\<not> active c' \<and> head c' = 0 \<and> lastChar c' = 0
         \<and> 5 \<le> sint (gap c') \<and> sint (gap c') < 15
         \<and> 3 \<le> sint (length_col c') \<and> sint (length_col c') < sint height sdiv 2 + 4"
proof -
  from assms obtain g rng1 l rng2 r rng3 where
    g: "Intn 10 rng = Inr (g, rng1)" and
    l: "Intn (godiv height 2 + 1) rng1 = Inr (l, rng2)" and
    r: "Intn (word_of_nat (length tbl)) rng2 = Inr (r, rng3)" and
    c': "c' = col\<lparr>active := False, head := 0, gap := g + 5, length_col := l + 3,
                 colorOffset := gorem (co + r) (word_of_nat (length tbl)), lastChar := 0\<rparr>"
    by (auto simp add: resetColumn_def split: sum.splits)
  have gb: "0 \<le> sint g" "sint g < 10"
    using Intn_range [OF g] by simp_all
  have lb: "0 \<le> sint l" "sint l < sint height sdiv 2 + 1"
    using Intn_range [OF l] by (simp_all add: sint_godiv2)
  have hb: "sint height < 2 ^ 63"
    using sint_goint_bounds [of height] by simp
  have q: "sint height sdiv 2 = (if 0 \<le> sint height then sint height div 2 else - ((- sint height) div 2))"
    by (simp add: signed_divide_int_def sgn_if)
  have lb2: "sint l < 2 ^ 62"
    using lb hb unfolding q by (simp split: if_splits)
  have "g + 5 = word_of_int (sint g + 5)" "l + 3 = word_of_int (sint l + 3)"
    by simp_all
  then have "sint (g + 5) = sint g + 5" "sint (l + 3) = sint l + 3"
    using gb lb lb2 sint_in_range [of "sint g + 5"] sint_in_range [of "sint l + 3"] by simp_all
  then show ?thesis
    using gb lb by (simp add: c')
qed



text \<open>The row a call works on: the stored head, or 1 when the call activates the column.\<close>

lemma drawColumnFrame_countdown:
  assumes "\<not> active col" "0 <s gap col"
  shows "drawColumnFrame idx col height tbl rng = Inr (col\<lparr>gap := gap col - 1\<rparr>, [], rng)"
  using assms by (simp add: drawColumnFrame_def)

lemma drawColumnFrame_advance:
  assumes run: "active col \<or> \<not> 0 <s gap col"
    and h: "h = (if active col then head col else 1)"
    and stay: "\<not> height + length_col col <s h"
  shows "\<exists>x out1 rng'. drawColumnFrame idx col height tbl rng
           = Inr (col\<lparr>active := True, head := h + 1, lastChar := x\<rparr>,
                  out1 @ drawTrail idx h (colorOffset col) (lastChar col) height tbl
                       @ drawErase idx h (length_col col) height, rng')
         \<and> (\<forall>r k. Erase r k \<notin> set out1)"
proof -
  let ?col1 = "if \<not> active col then col\<lparr>active := True, head := 1\<rparr> else col"
  have c1: "head ?col1 = h" "length_col ?col1 = length_col col"
    "colorOffset ?col1 = colorOffset col" "lastChar ?col1 = lastChar col" "active ?col1"
    using h by simp_all
  obtain x out1 rng1 where
    dh: "drawHead idx ?col1 height tbl rng = Inr (?col1\<lparr>lastChar := x\<rparr>, out1, rng1)"
    and ne: "\<forall>r k. Erase r k \<notin> set out1"
    using drawHead_result [of idx ?col1 height tbl rng] by blast
  have eq: "?col1\<lparr>lastChar := x, head := h + 1\<rparr> = col\<lparr>active := True, head := h + 1, lastChar := x\<rparr>"
    using h by (cases "active col") simp_all
  have nc: "(\<not> active col \<and> 0 <s gap col) = False"
    using run by blast
  have "drawColumnFrame idx col height tbl rng
          = Inr (?col1\<lparr>lastChar := x, head := h + 1\<rparr>,
                 out1 @ drawTrail idx h (colorOffset col) (lastChar col) height tbl
                      @ drawErase idx h (length_col col) height, rng1)"
    using stay c1 dh unfolding drawColumnFrame_def Let_def nc
    by (simp del: if_split split del: if_split cong: if_cong)
  then show ?thesis
    using ne eq by auto
qed

lemma drawColumnFrame_reset:
  assumes run: "active col \<or> \<not> 0 <s gap col"
    and h: "h = (if active col then head col else 1)"
    and over: "height + length_col col <s h"
  shows "\<exists>x out1 rng1. (\<forall>r k. Erase r k \<notin> set out1)
           \<and> drawColumnFrame idx col height tbl rng
               = (case resetColumn (col\<lparr>active := True, head := h + 1, lastChar := x\<rparr>)
                         (colorOffset col) height tbl rng1 of
                    Inl e \<Rightarrow> Inl e
                  | Inr (col4, rng2) \<Rightarrow>
                      Inr (col4, out1 @ drawTrail idx h (colorOffset col) (lastChar col) height tbl
                                      @ drawErase idx h (length_col col) height, rng2))"
proof -
  let ?col1 = "if \<not> active col then col\<lparr>active := True, head := 1\<rparr> else col"
  have c1: "head ?col1 = h" "length_col ?col1 = length_col col"
    "colorOffset ?col1 = colorOffset col" "lastChar ?col1 = lastChar col" "active ?col1"
    using h by simp_all
  obtain x out1 rng1 where
    dh: "drawHead idx ?col1 height tbl rng = Inr (?col1\<lparr>lastChar := x\<rparr>, out1, rng1)"
    and ne: "\<forall>r k. Erase r k \<notin> set out1"
    using drawHead_result [of idx ?col1 height tbl rng] by blast
  have eq: "?col1\<lparr>lastChar := x, head := h + 1\<rparr> = col\<lparr>active := True, head := h + 1, lastChar := x\<rparr>"
    using h by (cases "active col") simp_all
  have nc: "(\<not> active col \<and> 0 <s gap col) = False"
    using run by blast
  let ?R = "resetColumn (?col1\<lparr>lastChar := x, head := h + 1\<rparr>) (colorOffset col) height tbl rng1"
  let ?out = "out1 @ drawTrail idx h (colorOffset col) (lastChar col) height tbl
                   @ drawErase idx h (length_col col) height"
  have "drawColumnFrame idx col height tbl rng
          = (case ?R of Inl e \<Rightarrow> Inl e | Inr (col4, rng2) \<Rightarrow> Inr (col4, ?out, rng2))"
  proof (cases ?R)
    case (Inl e)
    then show ?thesis
      using over c1 dh unfolding drawColumnFrame_def Let_def nc
      by (simp del: if_split split del: if_split cong: if_cong)
  next
    case (Inr p)
    then show ?thesis
      using over c1 dh unfolding drawColumnFrame_def Let_def nc
      by (cases p) (simp del: if_split split del: if_split cong: if_cong)
  qed
  then show ?thesis
    using ne eq by auto
qed

lemma initColumn_Inr:
  assumes "initColumn height rainbowLen rng = Inr (c, rng')"
  shows "\<not> active c \<and> head c = 0 \<and> lastChar c = 0
         \<and> 5 \<le> sint (gap c) \<and> sint (gap c) < 15
         \<and> 3 \<le> sint (length_col c) \<and> sint (length_col c) < sint height sdiv 2 + 4"
proof -
  from assms obtain g rng1 l rng2 r rng3 where
    g: "Intn 10 rng = Inr (g, rng1)" and
    l: "Intn (godiv height 2 + 1) rng1 = Inr (l, rng2)" and
    c: "c = zeroColumn\<lparr>gap := g + 5, length_col := l + 3, colorOffset := r\<rparr>"
    by (auto simp add: initColumn_def split: sum.splits)
  have gb: "0 \<le> sint g" "sint g < 10"
    using Intn_range [OF g] by simp_all
  have lb: "0 \<le> sint l" "sint l < sint height sdiv 2 + 1"
    using Intn_range [OF l] by (simp_all add: sint_godiv2)
  have hb: "sint height < 2 ^ 63"
    using sint_goint_bounds [of height] by simp
  have q: "sint height sdiv 2 = (if 0 \<le> sint height then sint height div 2 else - ((- sint height) div 2))"
    by (simp add: signed_divide_int_def sgn_if)
  have lb2: "sint l < 2 ^ 62"
    using lb hb unfolding q by (simp split: if_splits)
  have "g + 5 = word_of_int (sint g + 5)" "l + 3 = word_of_int (sint l + 3)"
    by simp_all
  then have "sint (g + 5) = sint g + 5" "sint (l + 3) = sint l + 3"
    using gb lb lb2 sint_in_range [of "sint g + 5"] sint_in_range [of "sint l + 3"] by simp_all
  then show ?thesis
    using gb lb by (simp add: c zeroColumn_def)
qed

lemma initLoop_Inr:
  "initLoop k height rainbowLen rng = Inr (cols, rng') \<Longrightarrow> c \<in> set cols
   \<Longrightarrow> \<exists>r r'. initColumn height rainbowLen r = Inr (c, r')"
proof (induction k arbitrary: rng cols)
  case 0
  then show ?case by simp
next
  case (Suc k)
  then show ?case
    by (fastforce split: sum.splits)
qed

lemma initColumns_Inr:
  assumes "initColumns count height rainbowLen rng = Inr (cols, rng')" "c \<in> set cols"
  shows "\<not> active c \<and> head c = 0 \<and> lastChar c = 0
         \<and> 5 \<le> sint (gap c) \<and> sint (gap c) < 15
         \<and> 3 \<le> sint (length_col c) \<and> sint (length_col c) < sint height sdiv 2 + 4"
proof -
  obtain rl where "initLoop (nat (sint count)) height rl rng = Inr (cols, rng')"
    using assms(1) by (auto simp add: initColumns_def Let_def split: if_splits)
  then obtain r r' where "initColumn height rl r = Inr (c, r')"
    using assms(2) initLoop_Inr by blast
  then show ?thesis
    by (rule initColumn_Inr)
qed

lemma sint_pred:
  fixes g :: goint
  assumes "0 <s g"
  shows "sint (g - 1) = sint g - 1"
proof -
  have "0 < sint g" "sint g < 2 ^ 63"
    using assms sint_goint_bounds [of g] by (simp_all add: word_sless_alt)
  moreover have "g - 1 = word_of_int (sint g - 1)"
    by simp
  ultimately show ?thesis
    using sint_in_range [of "sint g - 1"] by simp
qed


lemma sint_sum:
  fixes a b :: goint
  assumes "- (2 ^ 63) \<le> sint a + sint b" "sint a + sint b < 2 ^ 63"
  shows "sint (a + b) = sint a + sint b"
proof -
  have "a + b = word_of_int (sint a + sint b)"
    by simp
  then show ?thesis
    using assms sint_in_range [of "sint a + sint b"] by simp
qed

lemma godiv2_pos_iff: "0 <s godiv height 2 + 1 \<longleftrightarrow> - 1 \<le> sint height"
proof -
  have q: "sint height sdiv 2 = (if 0 \<le> sint height then sint height div 2 else - ((- sint height) div 2))"
    by (simp add: signed_divide_int_def sgn_if)
  show ?thesis
    unfolding word_sless_alt sint_godiv2 q by (simp, linarith)
qed

text \<open>\<^verbatim>\<open>initColumns\<close> returns for a count and a table length that are not negative and a
  height of at least \<open>-1\<close>.\<close>

lemma initLoop_returns:
  assumes "\<And>r. \<exists>c r'. initColumn height rainbowLen r = Inr (c, r')"
  shows "\<exists>cols rng'. initLoop k height rainbowLen rng = Inr (cols, rng') \<and> length cols = k"
proof (induction k arbitrary: rng)
  case 0
  then show ?case by simp
next
  case (Suc k)
  obtain c r1 where c: "initColumn height rainbowLen rng = Inr (c, r1)"
    using assms by blast
  obtain cols r2 where "initLoop k height rainbowLen r1 = Inr (cols, r2)" "length cols = k"
    using Suc.IH by blast
  then show ?case
    using c by simp
qed

lemma initColumns_returns:
  assumes "0 \<le>s count" "- 1 \<le> sint height" "0 \<le>s rainbowLen"
  shows "\<exists>cols rng'. initColumns count height rainbowLen rng = Inr (cols, rng')
           \<and> length cols = nat (sint count)"
proof -
  let ?rl = "if rainbowLen = 0 then 1 else rainbowLen"
  have rl: "0 <s ?rl"
    using assms(3) by (auto simp add: word_sless_alt word_sle_eq) (metis signed_eq_0_iff order_le_less)
  have h: "0 <s godiv height 2 + 1"
    using assms(2) by (simp add: godiv2_pos_iff)
  have "\<And>r. \<exists>c r'. initColumn height ?rl r = Inr (c, r')"
    using rl h by (simp add: initColumn_def Intn_pos word_sless_alt)
  then have "\<exists>cols rng'. initLoop (nat (sint count)) height ?rl rng = Inr (cols, rng')
           \<and> length cols = nat (sint count)"
    by (rule initLoop_returns)
  then show ?thesis
    using assms(1) by (simp add: initColumns_def Let_def word_sless_alt word_sle_eq)
qed

subsection \<open>The invariant of the column states of a run\<close>

lemma drawColumnFrame_erase:
  assumes run: "active col \<or> \<not> 0 <s gap col"
    and h: "h = (if active col then head col else 1)"
    and ret: "drawColumnFrame idx col height tbl rng = Inr (col', out, rng')"
  shows "Erase r k \<in> set out
           \<longleftrightarrow> r = h - length_col col \<and> k = idx + 1 \<and> 1 \<le>s r \<and> r \<le>s height"
proof (cases "height + length_col col <s h")
  case False
  obtain x out1 rng1 where
    "drawColumnFrame idx col height tbl rng
       = Inr (col\<lparr>active := True, head := h + 1, lastChar := x\<rparr>,
              out1 @ drawTrail idx h (colorOffset col) (lastChar col) height tbl
                   @ drawErase idx h (length_col col) height, rng1)"
    and ne: "\<forall>r k. Erase r k \<notin> set out1"
    using drawColumnFrame_advance [OF run h False, of idx tbl rng] by blast
  then have "out = out1 @ drawTrail idx h (colorOffset col) (lastChar col) height tbl
                   @ drawErase idx h (length_col col) height"
    using ret by simp
  then show ?thesis
    using ne by (auto simp add: drawTrail_no_erase drawErase_iff)
next
  case True
  obtain x out1 rng1 where
    ne: "\<forall>r k. Erase r k \<notin> set out1" and
    d: "drawColumnFrame idx col height tbl rng
               = (case resetColumn (col\<lparr>active := True, head := h + 1, lastChar := x\<rparr>)
                         (colorOffset col) height tbl rng1 of
                    Inl e \<Rightarrow> Inl e
                  | Inr (col4, rng2) \<Rightarrow>
                      Inr (col4, out1 @ drawTrail idx h (colorOffset col) (lastChar col) height tbl
                                      @ drawErase idx h (length_col col) height, rng2))"
    using drawColumnFrame_reset [OF run h True, of idx tbl rng] by blast
  have "out = out1 @ drawTrail idx h (colorOffset col) (lastChar col) height tbl
                   @ drawErase idx h (length_col col) height"
    using ret d by (auto split: sum.splits)
  then show ?thesis
    using ne by (auto simp add: drawTrail_no_erase drawErase_iff)
qed

lemma drawColumnFrame_inv:
  assumes inv: "3 \<le> sint (length_col col) \<and> (\<not> active col \<longrightarrow> head col = 0)"
    and ret: "drawColumnFrame idx col height tbl rng = Inr (col', out, rng')"
  shows "3 \<le> sint (length_col col') \<and> (\<not> active col' \<longrightarrow> head col' = 0)"
proof (cases "\<not> active col \<and> 0 <s gap col")
  case True
  then have "col' = col\<lparr>gap := gap col - 1\<rparr>"
    using ret by (simp add: drawColumnFrame_countdown)
  then show ?thesis
    using inv by simp
next
  case False
  then have run: "active col \<or> \<not> 0 <s gap col"
    by blast
  define h where "h = (if active col then head col else 1)"
  show ?thesis
  proof (cases "height + length_col col <s h")
    case False
    obtain x out1 rng1 where
      "drawColumnFrame idx col height tbl rng
         = Inr (col\<lparr>active := True, head := h + 1, lastChar := x\<rparr>,
                out1 @ drawTrail idx h (colorOffset col) (lastChar col) height tbl
                     @ drawErase idx h (length_col col) height, rng1)"
      using drawColumnFrame_advance [OF run h_def False, of idx tbl rng] by blast
    then have "col' = col\<lparr>active := True, head := h + 1, lastChar := x\<rparr>"
      using ret by simp
    then show ?thesis
      using inv by simp
  next
    case True
    obtain x out1 rng1 where
      d: "drawColumnFrame idx col height tbl rng
               = (case resetColumn (col\<lparr>active := True, head := h + 1, lastChar := x\<rparr>)
                         (colorOffset col) height tbl rng1 of
                    Inl e \<Rightarrow> Inl e
                  | Inr (col4, rng2) \<Rightarrow>
                      Inr (col4, out1 @ drawTrail idx h (colorOffset col) (lastChar col) height tbl
                                      @ drawErase idx h (length_col col) height, rng2))"
      using drawColumnFrame_reset [OF run h_def True, of idx tbl rng] by blast
    then obtain rng2 where
      "resetColumn (col\<lparr>active := True, head := h + 1, lastChar := x\<rparr>)
         (colorOffset col) height tbl rng1 = Inr (col', rng2)"
      using ret by (auto split: sum.splits)
    then show ?thesis
      using resetColumn_Inr by blast
  qed
qed

lemma reachable_inv:
  "reachable c \<Longrightarrow> 3 \<le> sint (length_col c) \<and> (\<not> active c \<longrightarrow> head c = 0)"
proof (induction rule: reachable.induct)
  case (created count height rainbowLen rng cols rng' c)
  then show ?case
    using initColumns_Inr by blast
next
  case (advanced c idx height tbl rng c' out rng')
  then show ?case
    using drawColumnFrame_inv by blast
qed

lemma sint_minus_length:
  fixes len :: goint
  assumes "3 \<le> sint len"
  shows "sint (- len) = - sint len" "sint (1 - len) = 1 - sint len"
proof -
  have b: "sint len < 2 ^ 63"
    using sint_goint_bounds [of len] by simp
  have "- len = word_of_int (- sint len)" "1 - len = word_of_int (1 - sint len)"
    by simp_all
  then show "sint (- len) = - sint len" "sint (1 - len) = 1 - sint len"
    using assms b sint_in_range [of "- sint len"] sint_in_range [of "1 - sint len"] by simp_all
qed

lemma drawHead_drawn:
  assumes "1 \<le>s head col" "head col \<le>s height"
    and "drawHead idx col height tbl rng = Inr (c2, out1, rng1)"
  shows "\<exists>glyph \<in> set katakanaChars.
           out1 = [DrawHead (head col) (idx + 1) (rainbowColor tbl (head col + colorOffset col)) glyph]"
proof -
  let ?m = "shd rng mod 44"
  have i: "Intn (word_of_nat (length katakanaChars)) rng = Inr (word_of_nat ?m, stl rng)"
    by (simp add: length_katakanaChars Intn_pos word_sless_alt)
  have "?m < 2 ^ 64"
    by (rule less_trans [of _ 44]) simp_all
  then have "unat (word_of_nat ?m :: goint) = ?m"
    by (simp add: unat_of_nat take_bit_nat_eq_self)
  then have "katakanaChars ! unat (word_of_nat ?m :: goint) \<in> set katakanaChars"
    by (simp add: length_katakanaChars)
  then show ?thesis
    using assms i by (auto simp add: drawHead_def Let_def)
qed

lemma drawColumnFrame_draws_head:
  assumes run: "active col \<or> \<not> 0 <s gap col"
    and h: "h = (if active col then head col else 1)"
    and row: "1 \<le>s h" "h \<le>s height"
    and ret: "drawColumnFrame idx col height tbl rng = Inr (col', out, rng')"
  shows "\<exists>glyph \<in> set katakanaChars.
           DrawHead h (idx + 1) (rainbowColor tbl (h + colorOffset col)) glyph \<in> set out"
proof -
  let ?col1 = "if \<not> active col then col\<lparr>active := True, head := 1\<rparr> else col"
  have c1: "head ?col1 = h" "colorOffset ?col1 = colorOffset col"
    using h by simp_all
  obtain x out1 rng1 where
    dh: "drawHead idx ?col1 height tbl rng = Inr (?col1\<lparr>lastChar := x\<rparr>, out1, rng1)"
    using drawHead_result [of idx ?col1 height tbl rng] by blast
  obtain glyph where g: "glyph \<in> set katakanaChars"
    "out1 = [DrawHead h (idx + 1) (rainbowColor tbl (h + colorOffset col)) glyph]"
    using drawHead_drawn [of ?col1 height idx tbl rng, OF _ _ dh] row c1 by auto
  have nc: "(\<not> active col \<and> 0 <s gap col) = False"
    using run by blast
  have "\<exists>rest. out = out1 @ rest"
    using ret dh unfolding drawColumnFrame_def Let_def nc
    by (auto simp del: if_split split del: if_split cong: if_cong split: sum.splits if_splits)
  then show ?thesis
    using g by auto
qed

subsection \<open>Evaluating a call on a concrete column\<close>

lemmas frame_eval =
  drawColumnFrame_def drawHead_def drawTrail_def drawErase_def resetColumn_def
  initColumns_def initColumn_def zeroColumn_def Intn_def rainbowColor_def
  gorem_def godiv_def Let_def word_sless_alt word_sle_eq length_katakanaChars

subsection \<open>The gap countdown\<close>

text \<open>
  Claim C10: for every column with \<open>active = false\<close> and \<open>gap > 0\<close>, an advance call
  returns with \<open>gap\<close> smaller by exactly 1 and with \<open>active\<close>, \<open>head\<close>, \<open>length\<close>,
  \<open>colorOffset\<close> and the last glyph unchanged; it emits no instruction (the output list is
  empty) and leaves the random source untouched.
\<close>

theorem gap_countdown:
  "\<not> active col \<and> 0 <s gap col \<longrightarrow>
     (\<exists>col'. drawColumnFrame idx col height tbl rng = Inr (col', [], rng)
        \<and> sint (gap col') = sint (gap col) - 1
        \<and> active col' = active col \<and> head col' = head col
        \<and> length_col col' = length_col col \<and> colorOffset col' = colorOffset col
        \<and> lastChar col' = lastChar col)"
  by (simp add: drawColumnFrame_countdown sint_pred)

theorem gap_countdown_witness:
  "\<not> active \<lparr>active = False, head = 0, gap = 7, length_col = 5, colorOffset = 2, lastChar = 0\<rparr>
   \<and> (0 :: goint) <s 7
   \<and> (\<exists>col'. drawColumnFrame 3 \<lparr>active = False, head = 0, gap = 7, length_col = 5,
                   colorOffset = 2, lastChar = 0\<rparr> 24 [''255;0;0''] (sconst 0)
               = Inr (col', [], sconst 0)
          \<and> sint (gap col') = 6 \<and> \<not> active col' \<and> head col' = 0 \<and> length_col col' = 5
          \<and> colorOffset col' = 2 \<and> lastChar col' = 0)"
  using gap_countdown [of "\<lparr>active = False, head = 0, gap = 7, length_col = 5,
                   colorOffset = 2, lastChar = 0\<rparr>" 3 24 "[''255;0;0'']" "sconst 0"]
  by (simp add: word_sless_alt)

subsection \<open>A falling column\<close>




subsection \<open>Erased cells\<close>

text \<open>
  A column state of a run, for the statement below: five countdown calls, the activation
  and two advances after \<^verbatim>\<open>initColumns\<close>.
\<close>

lemma reachable_example:
  "reachable \<lparr>active = True, head = 4, gap = 0, length_col = 3, colorOffset = 0,
     lastChar = 65393\<rparr>"
proof -
  let ?t = "[''255;0;0'']"
  let ?g = "\<lambda>n. \<lparr>active = False, head = 0, gap = n, length_col = 3, colorOffset = 0,
     lastChar = 0 :: rune\<rparr>"
  let ?a = "\<lambda>n. \<lparr>active = True, head = n, gap = 0, length_col = 3, colorOffset = 0,
     lastChar = 65393 :: rune\<rparr>"
  have "initColumns 1 0 1 (sconst 0) = Inr ([?g 5], sconst 0)"
    by (simp add: frame_eval)
  then have "reachable (?g 5)"
    by (rule reachable.created) simp
  moreover have "drawColumnFrame 0 (?g 5) 10 ?t (sconst 0) = Inr (?g 4, [], sconst 0)"
    by (simp add: frame_eval)
  ultimately have "reachable (?g 4)"
    by (rule reachable.advanced)
  moreover have "drawColumnFrame 0 (?g 4) 10 ?t (sconst 0) = Inr (?g 3, [], sconst 0)"
    by (simp add: frame_eval)
  ultimately have "reachable (?g 3)"
    by (rule reachable.advanced)
  moreover have "drawColumnFrame 0 (?g 3) 10 ?t (sconst 0) = Inr (?g 2, [], sconst 0)"
    by (simp add: frame_eval)
  ultimately have "reachable (?g 2)"
    by (rule reachable.advanced)
  moreover have "drawColumnFrame 0 (?g 2) 10 ?t (sconst 0) = Inr (?g 1, [], sconst 0)"
    by (simp add: frame_eval)
  ultimately have "reachable (?g 1)"
    by (rule reachable.advanced)
  moreover have "drawColumnFrame 0 (?g 1) 10 ?t (sconst 0) = Inr (?g 0, [], sconst 0)"
    by (simp add: frame_eval)
  ultimately have "reachable (?g 0)"
    by (rule reachable.advanced)
  moreover have "drawColumnFrame 0 (?g 0) 10 ?t (sconst 0)
      = Inr (?a 2, [DrawHead 1 1 ''255;0;0'' 65393], sconst 0)"
    by (simp add: frame_eval katakanaChars_def signed_modulo_int_def)
  ultimately have "reachable (?a 2)"
    by (rule reachable.advanced)
  moreover have "drawColumnFrame 0 (?a 2) 10 ?t (sconst 0)
      = Inr (?a 3, [DrawHead 2 1 ''255;0;0'' 65393, DrawTrail 1 1 ''255;0;0'' 65393], sconst 0)"
    by (simp add: frame_eval katakanaChars_def signed_modulo_int_def)
  ultimately have "reachable (?a 3)"
    by (rule reachable.advanced)
  moreover have "drawColumnFrame 0 (?a 3) 10 ?t (sconst 0)
      = Inr (?a 4, [DrawHead 3 1 ''255;0;0'' 65393, DrawTrail 2 1 ''255;0;0'' 65393], sconst 0)"
    by (simp add: frame_eval katakanaChars_def signed_modulo_int_def)
  ultimately show "reachable (?a 4)"
    by (rule reachable.advanced)
qed

text \<open>
  Claim C8: no advance call ever emits an erase instruction for a row that is negative,
  zero or greater than the height (every erase instruction is for a row in
  \<open>1..height\<close>, in the call's column); and in every advance call on a falling column, and
  in every advance call of a run (a call on a column state that \<^verbatim>\<open>initColumns\<close> and
  earlier calls of \<^verbatim>\<open>drawColumnFrame\<close> produced), an erase instruction for row
  \<open>head - length\<close> is emitted if and only if \<open>1 \<le> head - length \<le> height\<close>, and no erase
  instruction for any other row.
\<close>

theorem erase_iff_in_range:
  assumes ret: "drawColumnFrame idx col height tbl rng = Inr (col', out, rng')"
  shows "(\<forall>r k. Erase r k \<in> set out \<longrightarrow> 1 \<le>s r \<and> r \<le>s height \<and> k = idx + 1)
       \<and> (active col \<or> reachable col \<longrightarrow>
            ((\<exists>k. Erase (head col - length_col col) k \<in> set out)
               \<longleftrightarrow> (1 \<le>s head col - length_col col \<and> head col - length_col col \<le>s height))
            \<and> (\<forall>r k. Erase r k \<in> set out \<longrightarrow> r = head col - length_col col))"
proof -
  have safe: "\<forall>r k. Erase r k \<in> set out \<longrightarrow> 1 \<le>s r \<and> r \<le>s height \<and> k = idx + 1"
  proof (cases "\<not> active col \<and> 0 <s gap col")
    case True
    then have "out = []"
      using ret by (simp add: drawColumnFrame_countdown)
    then show ?thesis
      by simp
  next
    case False
    then have "active col \<or> \<not> 0 <s gap col"
      by blast
    then show ?thesis
      using drawColumnFrame_erase [OF _ refl ret] by blast
  qed
  have falling: "\<And>r k. Erase r k \<in> set out
           \<longleftrightarrow> r = head col - length_col col \<and> k = idx + 1 \<and> 1 \<le>s r \<and> r \<le>s height"
    if "active col"
    using drawColumnFrame_erase [of col "head col" idx height tbl rng col' out rng'] ret that
    by simp
  have waiting: "\<And>r k. Erase r k \<notin> set out" "\<not> 1 \<le>s head col - length_col col"
    if r: "reachable col" and na: "\<not> active col"
  proof -
    have inv: "3 \<le> sint (length_col col)" "head col = 0"
      using reachable_inv [OF r] na by simp_all
    have low: "\<not> 1 \<le>s - length_col col" "\<not> 1 \<le>s 1 - length_col col"
      using inv(1) by (simp_all add: word_sle_eq sint_minus_length)
    show "\<not> 1 \<le>s head col - length_col col"
      using low inv(2) by simp
    show "\<And>r k. Erase r k \<notin> set out"
    proof (cases "0 <s gap col")
      case True
      then have "out = []"
        using na ret by (simp add: drawColumnFrame_countdown)
      then show "\<And>r k. Erase r k \<notin> set out"
        by simp
    next
      case g: False
      show "\<And>r k. Erase r k \<notin> set out"
        using drawColumnFrame_erase [of col 1 idx height tbl rng col' out rng'] ret na g low
        by auto
    qed
  qed
  have "((\<exists>k. Erase (head col - length_col col) k \<in> set out)
               \<longleftrightarrow> (1 \<le>s head col - length_col col \<and> head col - length_col col \<le>s height))
            \<and> (\<forall>r k. Erase r k \<in> set out \<longrightarrow> r = head col - length_col col)"
    if "active col \<or> reachable col"
  proof (cases "active col")
    case True
    then show ?thesis
      using falling by blast
  next
    case False
    then show ?thesis
      using that waiting by blast
  qed
  then show ?thesis
    using safe by blast
qed

theorem erase_iff_in_range_witness:
  "drawColumnFrame 0 \<lparr>active = True, head = 4, gap = 0, length_col = 3, colorOffset = 0,
        lastChar = 65393\<rparr> 10 [''255;0;0''] (sconst 0)
      = Inr (\<lparr>active = True, head = 5, gap = 0, length_col = 3, colorOffset = 0,
               lastChar = 65393\<rparr>,
             [DrawHead 4 1 ''255;0;0'' 65393, DrawTrail 3 1 ''255;0;0'' 65393, Erase 1 1],
             sconst 0)
   \<and> reachable \<lparr>active = True, head = 4, gap = 0, length_col = 3, colorOffset = 0,
     lastChar = 65393\<rparr>
   \<and> (\<exists>k. Erase (4 - 3) k
          \<in> set [DrawHead 4 1 ''255;0;0'' 65393, DrawTrail 3 1 ''255;0;0'' 65393, Erase 1 1])
   \<and> (1 :: goint) \<le>s 4 - 3 \<and> (4 - 3 :: goint) \<le>s 10"
proof -
  let ?c = "\<lparr>active = True, head = 4, gap = 0, length_col = 3, colorOffset = 0,
     lastChar = 65393 :: rune\<rparr>"
  let ?out = "[DrawHead 4 1 ''255;0;0'' 65393, DrawTrail 3 1 ''255;0;0'' 65393, Erase 1 1]"
  have d: "drawColumnFrame 0 ?c 10 [''255;0;0''] (sconst 0)
      = Inr (?c\<lparr>head := 5\<rparr>, ?out, sconst 0)"
    by (simp add: frame_eval katakanaChars_def signed_modulo_int_def)
  have "(\<exists>k. Erase (head ?c - length_col ?c) k \<in> set ?out)
          \<longleftrightarrow> (1 \<le>s head ?c - length_col ?c \<and> head ?c - length_col ?c \<le>s 10)"
    using erase_iff_in_range [OF d] reachable_example by blast
  then show ?thesis
    using reachable_example d by (simp add: word_sle_eq)
qed

subsection \<open>The end of a gap\<close>

text \<open>
  Claim C2, as stated, fails on the code: the call that finds \<open>gap = 0\<close> sets the head to
  1, draws row 1 and advances in the same call, so it leaves the column falling with
  \<open>head = 2\<close>, not 1 (first call below, height 24). At the largest \<^verbatim>\<open>int\<close> as height,
  which the program can receive from the environment variable \<^verbatim>\<open>LINES\<close>, the sum
  \<open>height + length\<close> wraps around to a negative number in Go and the same call resets the
  column, which is then in the gap state again (second call). It is reset as well when
  \<open>height + length\<close> is below 1 (third call, both are 0).
\<close>

theorem gap_expiry_counterexample:
  "drawColumnFrame 0 \<lparr>active = False, head = 0, gap = 0, length_col = 5, colorOffset = 2,
       lastChar = 0\<rparr> 24 [''255;0;0'', ''0;255;0'', ''0;0;255''] (sconst 7)
     = Inr (\<lparr>active = True, head = 2, gap = 0, length_col = 5, colorOffset = 2,
              lastChar = 65400\<rparr>, [DrawHead 1 1 ''255;0;0'' 65400], sconst 7)
   \<and> (2 :: goint) \<noteq> 1
   \<and> 1 \<le> sint (9223372036854775807 :: goint) + sint (3 :: goint)
   \<and> drawColumnFrame 0 \<lparr>active = False, head = 0, gap = 0, length_col = 3, colorOffset = 2,
       lastChar = 0\<rparr> 9223372036854775807 [''255;0;0'', ''0;255;0'', ''0;0;255''] (sconst 7)
     = Inr (\<lparr>active = False, head = 0, gap = 12, length_col = 10, colorOffset = 0,
              lastChar = 0\<rparr>, [DrawHead 1 1 ''255;0;0'' 65400], sconst 7)
   \<and> sint (0 :: goint) + sint (0 :: goint) < 1
   \<and> drawColumnFrame 0 \<lparr>active = False, head = 0, gap = 0, length_col = 0, colorOffset = 2,
       lastChar = 0\<rparr> 0 [''255;0;0'', ''0;255;0'', ''0;0;255''] (sconst 7)
     = Inr (\<lparr>active = False, head = 0, gap = 12, length_col = 3, colorOffset = 0,
              lastChar = 0\<rparr>, [], sconst 7)"
  by (simp add: frame_eval katakanaChars_def signed_modulo_int_def)

text \<open>
  Claim C2, amended, for an \<^verbatim>\<open>int\<close> of 64 bits: for every column in the gap state with
  \<open>gap = 0\<close>, when the sum \<open>height + length\<close> is at least 1 and fits an \<^verbatim>\<open>int\<close> (it is
  below \<open>2^63\<close>), the very next advance call returns with the column in the falling state
  and \<open>head = 2\<close>: the call itself works on row 1 (it draws the head glyph there when the
  height is at least 1) and advances.
\<close>

theorem gap_expiry:
  "\<not> active col \<and> gap col = 0
     \<and> 1 \<le> sint height + sint (length_col col)
     \<and> sint height + sint (length_col col) < 2 ^ 63 \<longrightarrow>
     (\<exists>col' out rng'. drawColumnFrame idx col height tbl rng = Inr (col', out, rng')
        \<and> active col' \<and> head col' = 2
        \<and> (1 \<le>s height \<longrightarrow>
             (\<exists>glyph. DrawHead 1 (idx + 1) (rainbowColor tbl (1 + colorOffset col)) glyph \<in> set out)))"
proof
  assume a: "\<not> active col \<and> gap col = 0
     \<and> 1 \<le> sint height + sint (length_col col)
     \<and> sint height + sint (length_col col) < 2 ^ 63"
  then have "sint (height + length_col col) = sint height + sint (length_col col)"
    by (intro sint_sum) simp_all
  then have stay: "\<not> height + length_col col <s 1"
    using a by (simp add: word_sless_alt)
  have run: "active col \<or> \<not> 0 <s gap col"
    using a by (simp add: word_sless_alt)
  have h: "(1 :: goint) = (if active col then head col else 1)"
    using a by simp
  obtain x out1 rng1 where
    d: "drawColumnFrame idx col height tbl rng
       = Inr (col\<lparr>active := True, head := 1 + 1, lastChar := x\<rparr>,
              out1 @ drawTrail idx 1 (colorOffset col) (lastChar col) height tbl
                   @ drawErase idx 1 (length_col col) height, rng1)"
    using drawColumnFrame_advance [OF run h stay, of idx tbl rng] by blast
  have "1 \<le>s height \<longrightarrow>
          (\<exists>glyph. DrawHead 1 (idx + 1) (rainbowColor tbl (1 + colorOffset col)) glyph
             \<in> set (out1 @ drawTrail idx 1 (colorOffset col) (lastChar col) height tbl
                   @ drawErase idx 1 (length_col col) height))"
    using drawColumnFrame_draws_head [OF run h _ _ d] by (auto simp add: word_sle_eq)
  then show "\<exists>col' out rng'. drawColumnFrame idx col height tbl rng = Inr (col', out, rng')
        \<and> active col' \<and> head col' = 2
        \<and> (1 \<le>s height \<longrightarrow>
             (\<exists>glyph. DrawHead 1 (idx + 1) (rainbowColor tbl (1 + colorOffset col)) glyph \<in> set out))"
    using d by simp
qed

theorem gap_expiry_witness:
  "\<not> active \<lparr>active = False, head = 0, gap = 0, length_col = 5, colorOffset = 2, lastChar = 0\<rparr>
   \<and> 1 \<le> sint (24 :: goint) + sint (5 :: goint)
   \<and> sint (24 :: goint) + sint (5 :: goint) < 2 ^ 63
   \<and> (1 :: goint) \<le>s 24
   \<and> (\<exists>col' out rng'. drawColumnFrame 0 \<lparr>active = False, head = 0, gap = 0, length_col = 5,
            colorOffset = 2, lastChar = 0\<rparr> 24 [''255;0;0'', ''0;255;0'', ''0;0;255''] (sconst 7)
          = Inr (col', out, rng')
        \<and> active col' \<and> head col' = 2
        \<and> (\<exists>glyph. DrawHead 1 1 ''255;0;0'' glyph \<in> set out))"
proof -
  let ?c = "\<lparr>active = False, head = 0, gap = 0, length_col = 5, colorOffset = 2,
      lastChar = 0 :: rune\<rparr>"
  let ?t = "[''255;0;0'', ''0;255;0'', ''0;0;255'']"
  have hyp: "\<not> active ?c \<and> gap ?c = 0
     \<and> 1 \<le> sint (24 :: goint) + sint (length_col ?c)
     \<and> sint (24 :: goint) + sint (length_col ?c) < 2 ^ 63"
    by simp
  have h24: "(1 :: goint) \<le>s 24"
    by (simp add: word_sle_eq)
  have col: "rainbowColor ?t (1 + colorOffset ?c) = ''255;0;0''"
    by (simp add: rainbowColor_def gorem_def word_sless_alt)
  have "\<exists>col' out rng'. drawColumnFrame 0 ?c 24 ?t (sconst 7) = Inr (col', out, rng')
        \<and> active col' \<and> head col' = 2
        \<and> (\<exists>glyph. DrawHead 1 (0 + 1) (rainbowColor ?t (1 + colorOffset ?c)) glyph \<in> set out)"
    using gap_expiry [of ?c 24 0 ?t "sconst 7"] hyp h24 by blast
  then have w: "\<exists>col' out rng'. drawColumnFrame 0 ?c 24 ?t (sconst 7) = Inr (col', out, rng')
        \<and> active col' \<and> head col' = 2
        \<and> (\<exists>glyph. DrawHead 1 1 ''255;0;0'' glyph \<in> set out)"
    unfolding col by simp
  have "1 \<le> sint (24 :: goint) + sint (5 :: goint)"
    "sint (24 :: goint) + sint (5 :: goint) < 2 ^ 63"
    by simp_all
  then show ?thesis
    using w h24 by simp
qed

subsection \<open>Sampled gap and length\<close>

text \<open>
  Claim C3, as stated, fails on the code: the length is \<^verbatim>\<open>rand.Intn(height/2+1) + 3\<close>,
  which reaches \<open>height/2 + 3\<close>. For height 10 and a raw random value 5, both
  \<^verbatim>\<open>initColumns\<close> and the reset of \<^verbatim>\<open>drawColumnFrame\<close> sample the length 8, outside
  \<open>[3, 10/2+3) = [3, 8)\<close>.
\<close>

theorem resample_ranges_counterexample:
  "initColumns 1 10 63 (sconst 5)
     = Inr ([\<lparr>active = False, head = 0, gap = 10, length_col = 8, colorOffset = 5,
               lastChar = 0\<rparr>], sconst 5)
   \<and> drawColumnFrame 0 \<lparr>active = True, head = 40, gap = 0, length_col = 3, colorOffset = 0,
       lastChar = 0\<rparr> 10 [''255;0;0''] (sconst 5)
     = Inr (\<lparr>active = False, head = 0, gap = 10, length_col = 8, colorOffset = 0,
              lastChar = 0\<rparr>, [], sconst 5)
   \<and> \<not> sint (8 :: goint) < sint (10 :: goint) sdiv 2 + 3"
  by (simp add: frame_eval)

text \<open>
  Claim C3, amended: for every height and every random source, each column that
  \<^verbatim>\<open>initColumns\<close> returns, and the column that \<^verbatim>\<open>drawColumnFrame\<close> returns from a call
  that makes the transition from falling to gap, has its gap countdown in \<open>[5, 15)\<close> and its
  length in \<open>[3, height/2 + 4)\<close>, that is from 3 to \<open>height/2 + 3\<close> inclusive (\<open>height/2\<close>
  truncates towards zero).
\<close>

theorem resample_ranges:
  "(initColumns count height rainbowLen rng = Inr (cols, rng') \<and> c \<in> set cols \<longrightarrow>
       5 \<le> sint (gap c) \<and> sint (gap c) < 15
       \<and> 3 \<le> sint (length_col c) \<and> sint (length_col c) < sint height sdiv 2 + 4)
   \<and> ((active col \<or> \<not> 0 <s gap col)
       \<and> height + length_col col <s (if active col then head col else 1)
       \<and> drawColumnFrame idx col height tbl rng2 = Inr (col', out, rng2') \<longrightarrow>
       \<not> active col'
       \<and> 5 \<le> sint (gap col') \<and> sint (gap col') < 15
       \<and> 3 \<le> sint (length_col col') \<and> sint (length_col col') < sint height sdiv 2 + 4)"
proof (rule conjI; rule impI)
  assume "initColumns count height rainbowLen rng = Inr (cols, rng') \<and> c \<in> set cols"
  then show "5 \<le> sint (gap c) \<and> sint (gap c) < 15
       \<and> 3 \<le> sint (length_col c) \<and> sint (length_col c) < sint height sdiv 2 + 4"
    using initColumns_Inr [of count height rainbowLen rng cols rng' c] by simp
next
  let ?h = "if active col then head col else 1"
  assume a: "(active col \<or> \<not> 0 <s gap col)
       \<and> height + length_col col <s ?h
       \<and> drawColumnFrame idx col height tbl rng2 = Inr (col', out, rng2')"
  then obtain x out1 rng1 where
      d: "drawColumnFrame idx col height tbl rng2
               = (case resetColumn (col\<lparr>active := True, head := ?h + 1, lastChar := x\<rparr>)
                         (colorOffset col) height tbl rng1 of
                    Inl e \<Rightarrow> Inl e
                  | Inr (col4, rng2) \<Rightarrow>
                      Inr (col4, out1 @ drawTrail idx ?h (colorOffset col) (lastChar col) height tbl
                                      @ drawErase idx ?h (length_col col) height, rng2))"
    using drawColumnFrame_reset [of col ?h height idx tbl rng2] by blast
  then obtain rng3 where
      "resetColumn (col\<lparr>active := True, head := ?h + 1, lastChar := x\<rparr>)
         (colorOffset col) height tbl rng1 = Inr (col', rng3)"
    using a by (auto split: sum.splits)
  then show "\<not> active col'
       \<and> 5 \<le> sint (gap col') \<and> sint (gap col') < 15
       \<and> 3 \<le> sint (length_col col') \<and> sint (length_col col') < sint height sdiv 2 + 4"
    using resetColumn_Inr by blast
qed

theorem resample_ranges_witness:
  "initColumns 1 10 63 (sconst 5)
     = Inr ([\<lparr>active = False, head = 0, gap = 10, length_col = 8, colorOffset = 5,
               lastChar = 0\<rparr>], sconst 5)
   \<and> 5 \<le> sint (10 :: goint) \<and> sint (10 :: goint) < 15
   \<and> 3 \<le> sint (8 :: goint) \<and> sint (8 :: goint) < sint (10 :: goint) sdiv 2 + 4
   \<and> (10 :: goint) + 3 <s 40
   \<and> drawColumnFrame 0 \<lparr>active = True, head = 40, gap = 0, length_col = 3, colorOffset = 0,
       lastChar = 0\<rparr> 10 [''255;0;0''] (sconst 5)
     = Inr (\<lparr>active = False, head = 0, gap = 10, length_col = 8, colorOffset = 0,
              lastChar = 0\<rparr>, [], sconst 5)"
proof -
  let ?c = "\<lparr>active = False, head = 0, gap = 10, length_col = 8, colorOffset = 5,
               lastChar = 0 :: rune\<rparr>"
  let ?col = "\<lparr>active = True, head = 40, gap = 0, length_col = 3, colorOffset = 0,
       lastChar = 0 :: rune\<rparr>"
  let ?col' = "\<lparr>active = False, head = 0, gap = 10, length_col = 8, colorOffset = 0,
              lastChar = 0 :: rune\<rparr>"
  have i: "initColumns 1 10 63 (sconst 5) = Inr ([?c], sconst 5)"
    by (simp add: frame_eval)
  have d: "drawColumnFrame 0 ?col 10 [''255;0;0''] (sconst 5) = Inr (?col', [], sconst 5)"
    by (simp add: frame_eval)
  have o: "(10 :: goint) + 3 <s 40"
    by (simp add: word_sless_alt)
  show ?thesis
    using i d o
      resample_ranges [where count = 1 and height = 10 and rainbowLen = 63 and rng = "sconst 5"
        and cols = "[?c]" and rng' = "sconst 5" and c = ?c and col = ?col and idx = 0
        and tbl = "[''255;0;0'']" and ?rng2.0 = "sconst 5" and col' = ?col' and out = "[]"
        and rng2' = "sconst 5"]
    by simp
qed

subsection \<open>The rainbow colour of a position\<close>

lemma smod_wrap:
  fixes k C :: int
  assumes "0 < C"
  shows "(if k smod C < 0 then k smod C + C else k smod C) = k mod C"
    and "- C < k smod C" and "k smod C < C"
proof -
  show "(if k smod C < 0 then k smod C + C else k smod C) = k mod C"
  proof (cases "0 \<le> k")
    case True
    then show ?thesis
      using assms by (simp add: smod_mod_positive not_less)
  next
    case False
    then have k: "k = - (- k)" "0 < - k"
      by simp_all
    have "k smod C = - ((- k) mod C)"
      using False assms by (simp add: smod_int_alt_def sgn_if)
    moreover have "k mod C = (if (- k) mod C = 0 then 0 else C - ((- k) mod C))"
      using zmod_zminus1_eq_if [of "- k" C] by simp
    moreover have "0 \<le> (- k) mod C"
      using assms by simp
    ultimately show ?thesis
      by auto
  qed
  show "- C < k smod C" "k smod C < C"
    using smod_int_range [of C k] assms by auto
qed

lemma smod_twice:
  fixes k C :: int
  assumes "0 < C"
  shows "(k smod C + C) smod C = k mod C"
proof -
  have "0 \<le> k smod C + C"
    using smod_wrap(2) [OF assms, of k] by simp
  then have "(k smod C + C) smod C = (k smod C + C) mod C"
    using assms by (simp add: smod_mod_positive)
  also have "\<dots> = (k smod C) mod C"
    by simp
  also have "\<dots> = k mod C"
  proof (cases "k smod C < 0")
    case True
    then have "k mod C = k smod C + C"
      using smod_wrap(1) [OF assms, of k] by simp
    then show ?thesis
      by (metis mod_add_self2 mod_mod_trivial)
  next
    case False
    then have "k mod C = k smod C"
      using smod_wrap(1) [OF assms, of k] by simp
    then show ?thesis
      by (metis mod_mod_trivial)
  qed
  finally show ?thesis .
qed

lemma rainbowColor_index:
  assumes ne: "table \<noteq> []" and len: "length table < 2 ^ 63"
  shows "rainbowColor table p = table ! nat (sint p mod int (length table))"
    and "nat (sint p mod int (length table)) < length table"
proof -
  let ?C = "int (length table)"
  let ?n = "word_of_nat (length table) :: goint"
  have "?C < int (2 ^ 63)"
    using len by (simp only: of_nat_less_iff)
  then have C: "0 < ?C" "?C < 2 ^ 63"
    using ne by simp_all
  have n: "sint ?n = ?C"
    using len by (rule sint_word_of_nat)
  let ?r = "sint p smod ?C"
  have r: "- ?C < ?r" "?r < ?C"
    using smod_wrap(2,3) [OF C(1), of "sint p"] by simp_all
  have g: "sint (gorem p ?n) = ?r"
    unfolding gorem_def n using r C by (intro sint_in_range) simp_all
  let ?i = "if gorem p ?n <s 0 then gorem p ?n + ?n else gorem p ?n"
  have "gorem p ?n + ?n = word_of_int (?r + ?C)"
    by (simp add: gorem_def n)
  then have "sint (gorem p ?n + ?n) = ?r + ?C" if "?r < 0"
    using that r C sint_in_range [of "?r + ?C"] by simp
  then have i: "sint ?i = sint p mod ?C"
    using g smod_wrap(1) [OF C(1), of "sint p"] by (auto simp add: word_sless_alt split: if_splits)
  have nonneg: "0 \<le> sint p mod ?C" and lt: "sint p mod ?C < ?C"
    using C by simp_all
  have "uint ?i = take_bit 64 (sint ?i)"
    by (simp add: uint_sint)
  also have "\<dots> = sint ?i"
  proof -
    have "(2 :: int) ^ 63 < 2 ^ 64"
      by simp
    then have "sint p mod ?C < 2 ^ 64"
      using lt C by linarith
    then show ?thesis
      unfolding i using nonneg by (intro take_bit_int_eq_self) simp_all
  qed
  finally have "uint ?i = sint ?i" .
  then have "unat ?i = nat (sint p mod ?C)"
    using i by (simp add: unat_eq_nat_uint)
  then show "rainbowColor table p = table ! nat (sint p mod int (length table))"
    using ne by (simp add: rainbowColor_def Let_def)
  show "nat (sint p mod int (length table)) < length table"
    using nonneg lt by linarith
qed

text \<open>
  Claim C6: for every non-empty table of length \<open>C\<close> (a Go slice: \<open>C\<close> fits an \<^verbatim>\<open>int\<close>)
  and every position \<open>p\<close>, negative ones included, \<^verbatim>\<open>rainbowColor(table, p)\<close> is
  \<open>table[((p mod C) + C) mod C]\<close>, with Go's truncating remainder for \<open>mod\<close>, which is
  \<open>table[p mod C]\<close> with the remainder that is never negative; that index is within the
  table; and the colours are periodic with period \<open>C\<close>: \<^verbatim>\<open>rainbowColor(table, p + C)\<close> is
  \<^verbatim>\<open>rainbowColor(table, p)\<close> for every \<open>p\<close> for which \<open>p + C\<close> is a position too (is an
  \<^verbatim>\<open>int\<close>).
\<close>

theorem rainbowColor_periodic:
  assumes "table \<noteq> []" and "length table < 2 ^ 63"
  shows "rainbowColor table p
           = table ! nat ((sint p smod int (length table) + int (length table))
                            smod int (length table))
       \<and> rainbowColor table p = table ! nat (sint p mod int (length table))
       \<and> nat ((sint p smod int (length table) + int (length table)) smod int (length table))
           < length table
       \<and> (sint p + int (length table) < 2 ^ 63 \<longrightarrow>
            rainbowColor table (p + word_of_nat (length table)) = rainbowColor table p)"
proof -
  let ?C = "int (length table)"
  have C: "0 < ?C"
    using assms(1) by simp
  have tw: "\<And>k. (k smod ?C + ?C) smod ?C = k mod ?C"
    using smod_twice [OF C] by simp
  have a: "rainbowColor table p = table ! nat (sint p mod ?C)"
    and b: "nat (sint p mod ?C) < length table"
    using rainbowColor_index [OF assms] by simp_all
  have c: "rainbowColor table (p + word_of_nat (length table)) = rainbowColor table p"
    if ov: "sint p + ?C < 2 ^ 63"
  proof -
    have "p + word_of_nat (length table) = (word_of_int (sint p + ?C) :: goint)"
      by simp
    moreover have "- (2 ^ 63) \<le> sint p + ?C"
      using C sint_goint_bounds [of p] by linarith
    ultimately have "sint (p + word_of_nat (length table) :: goint) = sint p + ?C"
      using ov sint_in_range [of "sint p + ?C"] by simp
    then have "rainbowColor table (p + word_of_nat (length table))
                 = table ! nat ((sint p + ?C) mod ?C)"
      using rainbowColor_index(1) [OF assms, of "p + word_of_nat (length table)"] by simp
    then show ?thesis
      using a by simp
  qed
  show ?thesis
    using a b c by (simp add: tw)
qed

theorem rainbowColor_periodic_witness:
  "[''255;0;0'', ''0;255;0'', ''0;0;255''] \<noteq> []
   \<and> length [''255;0;0'', ''0;255;0'', ''0;0;255''] < 2 ^ 63
   \<and> rainbowColor [''255;0;0'', ''0;255;0'', ''0;0;255''] (- 4) = ''0;0;255''
   \<and> sint (- 4 :: goint) + 3 < 2 ^ 63
   \<and> rainbowColor [''255;0;0'', ''0;255;0'', ''0;0;255''] (- 4 + 3)
       = rainbowColor [''255;0;0'', ''0;255;0'', ''0;0;255''] (- 4)"
  using rainbowColor_periodic [of "[''255;0;0'', ''0;255;0'', ''0;0;255'']" "- 4"]
  by simp

subsection \<open>Command-line arguments\<close>

lemma flags_distinct:
  "arg = ''-s'' \<or> arg = ''--speed'' \<Longrightarrow> \<not> (arg = ''-h'' \<or> arg = ''--help'')"
  "arg = ''-d'' \<or> arg = ''--density'' \<Longrightarrow> \<not> (arg = ''-h'' \<or> arg = ''--help'')"
  "arg = ''-d'' \<or> arg = ''--density'' \<Longrightarrow> \<not> (arg = ''-s'' \<or> arg = ''--speed'')"
  by auto

lemma parseLoop_speed:
  assumes "arg = ''-s'' \<or> arg = ''--speed''"
  shows "parseLoop cfg (arg # v # rest) =
     (case Atoi v of
        None \<Rightarrow> (cfg, False, Some SpeedError)
      | Some value \<Rightarrow>
          if value <s 1 \<or> 10 <s value then (cfg, False, Some SpeedError)
          else parseLoop (cfg\<lparr>speed := value\<rparr>) rest)"
proof -
  have "\<not> (arg = ''-h'' \<or> arg = ''--help'')"
    using assms by (rule flags_distinct)
  then show ?thesis
    using assms by (simp only: parseLoop.simps if_True if_False list.case)
qed

lemma parseLoop_density:
  assumes "arg = ''-d'' \<or> arg = ''--density''"
  shows "parseLoop cfg (arg # v # rest) =
     (case Atoi v of
        None \<Rightarrow> (cfg, False, Some DensityError)
      | Some value \<Rightarrow>
          if value <s 1 \<or> 100 <s value then (cfg, False, Some DensityError)
          else parseLoop (cfg\<lparr>density := value\<rparr>) rest)"
proof -
  have "\<not> (arg = ''-h'' \<or> arg = ''--help'')" "\<not> (arg = ''-s'' \<or> arg = ''--speed'')"
    using assms by (rule flags_distinct)+
  then show ?thesis
    using assms by (simp only: parseLoop.simps if_True if_False list.case)
qed


lemma parseLoop_help:
  "arg = ''-h'' \<or> arg = ''--help'' \<Longrightarrow> parseLoop cfg (arg # rest) = (cfg, True, None)"
  by (simp only: parseLoop.simps if_True)

lemma parseLoop_missing:
  assumes "arg = ''-s'' \<or> arg = ''--speed'' \<or> arg = ''-d'' \<or> arg = ''--density''"
  shows "parseLoop cfg [arg] = (cfg, False, Some (MissingValue arg))"
proof (cases "arg = ''-s'' \<or> arg = ''--speed''")
  case True
  moreover have "\<not> (arg = ''-h'' \<or> arg = ''--help'')"
    using True by (rule flags_distinct)
  ultimately show ?thesis
    by (simp only: parseLoop.simps if_True if_False list.case)
next
  case False
  then have d: "arg = ''-d'' \<or> arg = ''--density''"
    using assms by blast
  then have "\<not> (arg = ''-h'' \<or> arg = ''--help'')"
    by (rule flags_distinct)
  then show ?thesis
    using False d by (simp only: parseLoop.simps if_True if_False list.case)
qed

lemma parseLoop_invalid:
  assumes "\<not> (arg = ''-h'' \<or> arg = ''--help'')" "\<not> (arg = ''-s'' \<or> arg = ''--speed'')"
    "\<not> (arg = ''-d'' \<or> arg = ''--density'')"
  shows "parseLoop cfg (arg # rest) = (cfg, False, Some (InvalidOption arg))"
  using assms by (simp only: parseLoop.simps if_False)

declare parseLoop.simps(2) [simp del]

lemma parseLoop_append:
  "parseLoop cfg pre = (cfg', False, None) \<Longrightarrow> parseLoop cfg (pre @ rest) = parseLoop cfg' rest"
proof (induction "length pre" arbitrary: pre cfg rule: less_induct)
  case less
  show ?case
  proof (cases pre)
    case Nil
    then show ?thesis
      using less.prems by simp
  next
    case (Cons arg rest0)
    consider (hlp) "arg = ''-h'' \<or> arg = ''--help''"
      | (spd) "arg = ''-s'' \<or> arg = ''--speed''"
      | (dns) "arg = ''-d'' \<or> arg = ''--density''"
      | (oth) "\<not> (arg = ''-h'' \<or> arg = ''--help'')" "\<not> (arg = ''-s'' \<or> arg = ''--speed'')"
          "\<not> (arg = ''-d'' \<or> arg = ''--density'')"
      by blast
    then show ?thesis
    proof cases
      case hlp
      then show ?thesis
        using less.prems Cons by (simp add: parseLoop_help)
    next
      case spd
      show ?thesis
      proof (cases rest0)
        case Nil
        have "parseLoop cfg [arg] = (cfg, False, Some (MissingValue arg))"
          using spd by (intro parseLoop_missing) blast
        then show ?thesis
          using less.prems Cons Nil by simp
      next
        case c2: (Cons v rest')
        have len: "length rest' < length pre"
          using Cons c2 by simp
        show ?thesis
          using less.prems less.hyps [OF len] Cons c2
          by (auto simp add: parseLoop_speed [OF spd] split: option.splits if_splits)
      qed
    next
      case dns
      show ?thesis
      proof (cases rest0)
        case Nil
        have "parseLoop cfg [arg] = (cfg, False, Some (MissingValue arg))"
          using dns by (intro parseLoop_missing) blast
        then show ?thesis
          using less.prems Cons Nil by simp
      next
        case c2: (Cons v rest')
        have len: "length rest' < length pre"
          using Cons c2 by simp
        show ?thesis
          using less.prems less.hyps [OF len] Cons c2
          by (auto simp add: parseLoop_density [OF dns] split: option.splits if_splits)
      qed
    next
      case oth
      then show ?thesis
        using less.prems Cons by (simp add: parseLoop_invalid)
    qed
  qed
qed

lemma parseLoop_no_flags:
  assumes "\<forall>a \<in> set args. \<not> (a = ''-s'' \<or> a = ''--speed'') \<and> \<not> (a = ''-d'' \<or> a = ''--density'')"
  shows "fst (parseLoop cfg args) = cfg"
proof (cases args)
  case Nil
  then show ?thesis by simp
next
  case (Cons arg rest)
  show ?thesis
  proof (cases "arg = ''-h'' \<or> arg = ''--help''")
    case True
    then show ?thesis
      using Cons by (simp add: parseLoop_help)
  next
    case False
    then show ?thesis
      using Cons assms by (simp add: parseLoop_invalid)
  qed
qed

text \<open>
  Claim C9, as stated, fails on the code: a help flag ends the parse at once, so a bad
  value behind it is never looked at and no error is returned. \<^verbatim>\<open>-h -s 99\<close> and
  \<^verbatim>\<open>--help --density abc\<close> return the default configuration, the help request and
  \<^verbatim>\<open>nil\<close>.
\<close>

theorem parseArguments_help_first:
  "parseArguments [''-h'', ''-s'', ''99''] = (\<lparr>speed = 5, density = 80\<rparr>, True, None)
   \<and> Atoi ''99'' = Some 99 \<and> (10 :: goint) <s 99
   \<and> parseArguments [''--help'', ''--density'', ''abc''] = (\<lparr>speed = 5, density = 80\<rparr>, True, None)
   \<and> Atoi ''abc'' = None"
  by (simp add: parseArguments_def defaultSpeed_def defaultDensity_def parseLoop_help
      Atoi_def isDigit_def word_sless_alt)

text \<open>
  Claim C9, amended: for every argument list, \<^verbatim>\<open>parseArguments\<close> returns an error
  whenever a \<^verbatim>\<open>-s\<close>/\<^verbatim>\<open>--speed\<close> flag that the parse reaches (the arguments before it were
  parsed without an error and without \<^verbatim>\<open>-h\<close>/\<^verbatim>\<open>--help\<close>) has a value that is not an
  integer or is outside 1..10, and likewise for \<^verbatim>\<open>-d\<close>/\<^verbatim>\<open>--density\<close> and 1..100,
  whatever follows; a flag reached in that way with an integer in range is accepted and
  its value stored; and with no speed or density flag among the arguments the returned
  configuration has speed 5 and density 80.
\<close>

theorem parseArguments_validation:
  assumes "parseArguments pre = (cfg, False, None)"
  shows "((flag = ''-s'' \<or> flag = ''--speed'')
            \<and> (Atoi v = None \<or> (\<exists>n. Atoi v = Some n \<and> (n <s 1 \<or> 10 <s n))) \<longrightarrow>
          parseArguments (pre @ flag # v # rest) = (cfg, False, Some SpeedError))
       \<and> ((flag = ''-d'' \<or> flag = ''--density'')
            \<and> (Atoi v = None \<or> (\<exists>n. Atoi v = Some n \<and> (n <s 1 \<or> 100 <s n))) \<longrightarrow>
          parseArguments (pre @ flag # v # rest) = (cfg, False, Some DensityError))
       \<and> ((flag = ''-s'' \<or> flag = ''--speed'') \<and> Atoi v = Some n \<and> 1 \<le>s n \<and> n \<le>s 10 \<longrightarrow>
          parseArguments (pre @ [flag, v]) = (cfg\<lparr>speed := n\<rparr>, False, None))
       \<and> ((flag = ''-d'' \<or> flag = ''--density'') \<and> Atoi v = Some n \<and> 1 \<le>s n \<and> n \<le>s 100 \<longrightarrow>
          parseArguments (pre @ [flag, v]) = (cfg\<lparr>density := n\<rparr>, False, None))
       \<and> ((\<forall>a \<in> set args. \<not> (a = ''-s'' \<or> a = ''--speed'') \<and> \<not> (a = ''-d'' \<or> a = ''--density'')) \<longrightarrow>
          speed (fst (parseArguments args)) = 5 \<and> density (fst (parseArguments args)) = 80)"
proof -
  have app: "\<And>rest. parseArguments (pre @ rest) = parseLoop cfg rest"
    using assms parseLoop_append unfolding parseArguments_def by blast
  have s1: "parseLoop cfg (flag # v # rest) = (cfg, False, Some SpeedError)"
    if "flag = ''-s'' \<or> flag = ''--speed''"
      "Atoi v = None \<or> (\<exists>n. Atoi v = Some n \<and> (n <s 1 \<or> 10 <s n))"
    using that(2) by (auto simp add: parseLoop_speed [OF that(1)])
  have d1: "parseLoop cfg (flag # v # rest) = (cfg, False, Some DensityError)"
    if "flag = ''-d'' \<or> flag = ''--density''"
      "Atoi v = None \<or> (\<exists>n. Atoi v = Some n \<and> (n <s 1 \<or> 100 <s n))"
    using that(2) by (auto simp add: parseLoop_density [OF that(1)])
  have s2: "parseLoop cfg [flag, v] = (cfg\<lparr>speed := n\<rparr>, False, None)"
    if "flag = ''-s'' \<or> flag = ''--speed''" "Atoi v = Some n" "1 \<le>s n" "n \<le>s 10"
    using that(2-4) by (simp add: parseLoop_speed [OF that(1)] word_sless_alt word_sle_eq)
  have d2: "parseLoop cfg [flag, v] = (cfg\<lparr>density := n\<rparr>, False, None)"
    if "flag = ''-d'' \<or> flag = ''--density''" "Atoi v = Some n" "1 \<le>s n" "n \<le>s 100"
    using that(2-4) by (simp add: parseLoop_density [OF that(1)] word_sless_alt word_sle_eq)
  have nf: "fst (parseArguments args) = \<lparr>speed = 5, density = 80\<rparr>"
    if "\<forall>a \<in> set args. \<not> (a = ''-s'' \<or> a = ''--speed'') \<and> \<not> (a = ''-d'' \<or> a = ''--density'')"
    using parseLoop_no_flags [OF that] by (simp add: parseArguments_def defaultSpeed_def defaultDensity_def)
  show ?thesis
    unfolding app using s1 d1 s2 d2 nf by simp
qed

theorem parseArguments_validation_witness:
  "parseArguments [''-d'', ''50''] = (\<lparr>speed = 5, density = 50\<rparr>, False, None)
   \<and> Atoi ''abc'' = None
   \<and> parseArguments ([''-d'', ''50''] @ ''-s'' # ''abc'' # [''-h''])
       = (\<lparr>speed = 5, density = 50\<rparr>, False, Some SpeedError)
   \<and> Atoi ''101'' = Some 101 \<and> (100 :: goint) <s 101
   \<and> parseArguments ([''-d'', ''50''] @ ''--density'' # ''101'' # [])
       = (\<lparr>speed = 5, density = 50\<rparr>, False, Some DensityError)
   \<and> Atoi ''7'' = Some 7 \<and> (1 :: goint) \<le>s 7 \<and> (7 :: goint) \<le>s 10
   \<and> parseArguments ([''-d'', ''50''] @ [''--speed'', ''7''])
       = (\<lparr>speed = 7, density = 50\<rparr>, False, None)
   \<and> Atoi ''100'' = Some 100 \<and> (1 :: goint) \<le>s 100 \<and> (100 :: goint) \<le>s 100
   \<and> parseArguments ([''-d'', ''50''] @ [''-d'', ''100''])
       = (\<lparr>speed = 5, density = 100\<rparr>, False, None)
   \<and> speed (fst (parseArguments [''-x''])) = 5 \<and> density (fst (parseArguments [''-x''])) = 80"
proof -
  let ?cfg = "\<lparr>speed = 5, density = 50 :: goint\<rparr>"
  have pre: "parseArguments [''-d'', ''50''] = (?cfg, False, None)"
    by (simp add: parseArguments_def defaultSpeed_def defaultDensity_def parseLoop_density
        Atoi_def isDigit_def word_sless_alt)
  have a: "Atoi ''abc'' = None" "Atoi ''101'' = Some 101" "Atoi ''7'' = Some 7"
    "Atoi ''100'' = Some 100"
    by (simp_all add: Atoi_def isDigit_def)
  have o: "(100 :: goint) <s 101" "(1 :: goint) \<le>s 7" "(7 :: goint) \<le>s 10"
    "(1 :: goint) \<le>s 100" "(100 :: goint) \<le>s 100"
    by (simp_all add: word_sless_alt word_sle_eq)
  have x: "\<forall>a \<in> set [''-x'']. \<not> (a = ''-s'' \<or> a = ''--speed'') \<and> \<not> (a = ''-d'' \<or> a = ''--density'')"
    by simp
  show ?thesis
    using pre a o
      parseArguments_validation [OF pre, where flag = "''-s''" and v = "''abc''"
        and rest = "[''-h'']" and args = "[''-x'']"]
      parseArguments_validation [OF pre, where flag = "''--density''" and v = "''101''"
        and rest = "[]"]
      parseArguments_validation [OF pre, where flag = "''--speed''" and v = "''7''" and n = 7]
      parseArguments_validation [OF pre, where flag = "''-d''" and v = "''100''" and n = 100]
    by (simp add: x)
qed

subsection \<open>The rainbow table\<close>

lemma sqrt3_bounds: "1732 / 1000 < sqrt 3" "sqrt 3 < 17321 / 10000"
proof -
  show "1732 / 1000 < sqrt 3"
    by (rule real_less_rsqrt) (simp add: power2_eq_square)
  show "sqrt 3 < 17321 / 10000"
    by (rule real_less_lsqrt) (simp_all add: power2_eq_square)
qed


lemma sin_120_twoPi: "sin (2 * pi / 3) = sqrt 3 / 2"
  using sin_120' by (simp add: mult.commute)












lemma specGreen_first: "specGreen f 0 = sqrt 3 / 2 * 127 + 128"
proof -
  have "f * real (0 :: nat) + 2 * pi / 3 = 2 * pi / 3"
    by simp
  then show ?thesis
    unfolding specGreen_def by (simp only: sin_120_twoPi)
qed


text \<open>
  The green channel of entry 0 does not depend on the arithmetic of the machine: on every
  machine whose value for the green expression at index 0 is finite and within 1/100 of the
  exact \<open>sin(2\<pi>/3)*127+128 = 237.98...\<close>, that value is converted to 237, where rounding it
  to the nearest integer gives 238.
\<close>

lemma green_first_robust:
  assumes "valueOf m (greenValue m freq 0) = Some v"
    and "\<bar>v - specGreen f 0\<bar> \<le> 1 / 100"
  shows "fst (snd (rainbowRGB m freq 0)) = 237 \<and> round v = 238"
proof -
  have x: "sqrt 3 / 2 * 127 + 128 - 1 / 100 \<le> v" "v \<le> sqrt 3 / 2 * 127 + 128 + 1 / 100"
    using assms(2) unfolding specGreen_first by linarith+
  have lo: "237 \<le> v" and hi: "v < 238" and mid: "238 \<le> v + 1 / 2"
    using x sqrt3_bounds by linarith+
  have f: "\<lfloor>v\<rfloor> = 237"
    using lo hi by (intro floor_unique) simp_all
  have "\<lfloor>v + 1 / 2\<rfloor> = 238"
    using mid hi by (intro floor_unique) simp_all
  then have "round v = 238"
    by (simp add: round_def)
  moreover have "trunc v = 237"
    using lo f by (simp add: trunc_def)
  then have "floatToInt m (greenValue m freq 0) = 237"
    using assms(1) by (simp add: floatToInt_def)
  ultimately show ?thesis
    by (simp add: rainbowRGB_def Let_def)
qed




end
